theory Spec2Isabelle
  imports Main "HOL-Library.Sublist"
begin

section \<open>Strings of the Go standard library\<close>

text \<open>
  Go strings are byte sequences; they are modelled as \<^typ>\<open>string\<close> (lists of 8-bit
  characters).  The functions of package \<open>strings\<close> that the annotation parser and the
  resolver call are written out here.  \<open>TrimSpace\<close> removes the six ASCII white-space
  bytes; the multi-byte Unicode spaces that Go also trims are outside this model.
  An index result of \<open>-1\<close> in Go is \<^const>\<open>None\<close> here.
\<close>

definition isSpace :: "char \<Rightarrow> bool" where
  "isSpace c \<longleftrightarrow> c = CHR '' '' \<or> c = CHR 0x09 \<or> c = CHR 0x0A \<or> c = CHR 0x0B
     \<or> c = CHR 0x0C \<or> c = CHR 0x0D"

definition TrimSpace :: "string \<Rightarrow> string" where
  "TrimSpace s = rev (dropWhile isSpace (rev (dropWhile isSpace s)))"

definition HasPrefix :: "string \<Rightarrow> string \<Rightarrow> bool" where
  "HasPrefix s p \<longleftrightarrow> take (length p) s = p"

definition HasSuffix :: "string \<Rightarrow> string \<Rightarrow> bool" where
  "HasSuffix s p \<longleftrightarrow> length p \<le> length s \<and> drop (length s - length p) s = p"

definition TrimPrefix :: "string \<Rightarrow> string \<Rightarrow> string" where
  "TrimPrefix s p = (if HasPrefix s p then drop (length p) s else s)"

definition TrimSuffix :: "string \<Rightarrow> string \<Rightarrow> string" where
  "TrimSuffix s p = (if HasSuffix s p then take (length s - length p) s else s)"

text \<open>\<open>strings.Index\<close>: the least offset at which \<open>sub\<close> occurs in \<open>s\<close>.\<close>

fun Index :: "string \<Rightarrow> string \<Rightarrow> nat option" where
  "Index [] sub = (if sub = [] then Some 0 else None)"
| "Index (c # cs) sub =
     (if HasPrefix (c # cs) sub then Some 0
      else map_option Suc (Index cs sub))"

definition Contains :: "string \<Rightarrow> string \<Rightarrow> bool" where
  "Contains s sub \<longleftrightarrow> Index s sub \<noteq> None"

text \<open>\<open>strings.LastIndex\<close> for a one-byte pattern, the only use in the sources.\<close>

fun LastIndexByte :: "string \<Rightarrow> char \<Rightarrow> nat option" where
  "LastIndexByte [] b = None"
| "LastIndexByte (c # cs) b =
     (case LastIndexByte cs b of
        Some i \<Rightarrow> Some (Suc i)
      | None \<Rightarrow> (if c = b then Some 0 else None))"

text \<open>\<open>strings.IndexAny\<close>: the least offset of a byte that belongs to \<open>chars\<close>.\<close>

fun IndexAny :: "string \<Rightarrow> string \<Rightarrow> nat option" where
  "IndexAny [] chars = None"
| "IndexAny (c # cs) chars =
     (if c \<in> set chars then Some 0 else map_option Suc (IndexAny cs chars))"

text \<open>
  \<open>strings.ReplaceAll\<close> for a non-empty pattern: occurrences are replaced from left to
  right without overlap.  Every call in the sources passes a constant, non-empty pattern;
  for the empty pattern (where Go inserts \<open>new\<close> around every rune) the model returns
  the string unchanged.
\<close>

function ReplaceAll :: "string \<Rightarrow> string \<Rightarrow> string \<Rightarrow> string" where
  "ReplaceAll [] old new = []"
| "ReplaceAll (c # cs) old new =
     (if old \<noteq> [] \<and> HasPrefix (c # cs) old
      then new @ ReplaceAll (drop (length old) (c # cs)) old new
      else c # ReplaceAll cs old new)"
  by pat_completeness auto
termination
  by (relation "measure (\<lambda>(s, old, new). length s)") auto

text \<open>
  \<open>strings.Split\<close> for a one-byte separator: the pieces between the occurrences of
  the separator; a string without the separator is the only piece.
\<close>

fun SplitByte :: "string \<Rightarrow> char \<Rightarrow> string list" where
  "SplitByte [] sep = [[]]"
| "SplitByte (c # cs) sep =
     (if c = sep then [] # SplitByte cs sep
      else (case SplitByte cs sep of
              p # ps \<Rightarrow> (c # p) # ps
            | [] \<Rightarrow> [[c]]))"

section \<open>Escape and brace utilities (package parser)\<close>

text \<open>The four escape sequences are a backslash followed by one of \<open>{ } @ \\<close>.\<close>

definition isEscapable :: "char \<Rightarrow> bool" where
  "isEscapable c \<longleftrightarrow> c = CHR ''{'' \<or> c = CHR ''}'' \<or> c = CHR ''@'' \<or> c = CHR 0x5C"

definition backslashPlaceholder :: string where
  "backslashPlaceholder = [CHR 0x00, CHR ''B'', CHR ''S'', CHR 0x00]"

definition atPlaceholder :: string where
  "atPlaceholder = [CHR 0x00, CHR ''A'', CHR ''T'', CHR 0x00]"

definition UnescapeValue :: "string \<Rightarrow> string" where
  "UnescapeValue v =
     (let result = ReplaceAll v [CHR 0x5C, CHR 0x5C] backslashPlaceholder;
          result = ReplaceAll result [CHR 0x5C, CHR ''{''] ''{'';
          result = ReplaceAll result [CHR 0x5C, CHR ''}''] ''}'';
          result = ReplaceAll result [CHR 0x5C, CHR ''@''] ''@'';
          result = ReplaceAll result backslashPlaceholder [CHR 0x5C]
      in result)"

text \<open>
  The scanning loops of \<open>CountUnescapedBraces\<close>, \<open>ContainsUnescapedBrace\<close>,
  \<open>countBracesFromPosition\<close>, \<open>findBlockOpener\<close>, \<open>isInlineContent\<close> and
  \<open>ValidateNoNestedBraces\<close> walk an index \<open>i\<close> over the bytes; the recursive functions
  below walk the suffix \<open>s[i:]\<close> instead, and step over two bytes where the loop adds
  two to the index.
\<close>

definition braceDelta :: "char \<Rightarrow> int" where
  "braceDelta c = (if c = CHR ''{'' then 1 else if c = CHR ''}'' then -1 else 0)"

fun countBraces :: "string \<Rightarrow> int \<Rightarrow> int" where
  "countBraces (c # n # rest) depth =
     (if c = CHR 0x5C \<and> isEscapable n then countBraces rest depth
      else countBraces (n # rest) (depth + braceDelta c))"
| "countBraces [c] depth = depth + braceDelta c"
| "countBraces [] depth = depth"

definition CountUnescapedBraces :: "string \<Rightarrow> int \<times> bool" where
  "CountUnescapedBraces content =
     (let depth = countBraces content 0 in (depth, depth = 0))"

definition ProtectEscapedAt :: "string \<Rightarrow> string" where
  "ProtectEscapedAt content = ReplaceAll content [CHR 0x5C, CHR ''@''] atPlaceholder"

definition RestoreEscapedAt :: "string \<Rightarrow> string" where
  "RestoreEscapedAt content = ReplaceAll content atPlaceholder [CHR 0x5C, CHR ''@'']"

fun ContainsUnescapedBrace :: "string \<Rightarrow> bool" where
  "ContainsUnescapedBrace (c # n # rest) =
     (if c = CHR 0x5C \<and> isEscapable n then ContainsUnescapedBrace rest
      else if c = CHR ''{'' \<or> c = CHR ''}'' then True
      else ContainsUnescapedBrace (n # rest))"
| "ContainsUnescapedBrace [c] = (c = CHR ''{'' \<or> c = CHR ''}'')"
| "ContainsUnescapedBrace [] = False"

definition StartsWithUnescapedAt :: "string \<Rightarrow> bool" where
  "StartsWithUnescapedAt line =
     (case TrimSpace line of [] \<Rightarrow> False | c # _ \<Rightarrow> c = CHR ''@'')"

section \<open>Locating the block opener (package parser)\<close>

text \<open>
  \<open>findBlockOpener\<close>: the loop runs while \<open>i < len(line) - 1\<close>, so the last byte is
  never inspected as a first byte.  \<open>findOpenerFrom i s\<close> is the loop at index \<open>i\<close> with
  \<open>s = line[i:]\<close>.
\<close>

fun findOpenerFrom :: "nat \<Rightarrow> string \<Rightarrow> nat option" where
  "findOpenerFrom i (c # n # rest) =
     (if c = CHR 0x5C \<and> isEscapable n then findOpenerFrom (i + 2) rest
      else if (c = CHR '' '' \<or> c = CHR 0x09) \<and> n = CHR ''{'' then Some (i + 1)
      else findOpenerFrom (i + 1) (n # rest))"
| "findOpenerFrom i [c] = None"
| "findOpenerFrom i [] = None"

definition findBlockOpener :: "string \<Rightarrow> nat option" where
  "findBlockOpener line = findOpenerFrom 0 line"

definition countBracesFromPosition :: "string \<Rightarrow> nat \<Rightarrow> int" where
  "countBracesFromPosition line startPos = countBraces (drop startPos line) 0"

definition ExtractMetadata :: "string \<Rightarrow> string \<Rightarrow> string" where
  "ExtractMetadata line annotationName =
     (let line = TrimPrefix line annotationName in
      case findBlockOpener line of
        Some blockPos \<Rightarrow> TrimSpace (take (blockPos - 1) line)
      | None \<Rightarrow> TrimSpace line)"


section \<open>Go types as the resolver sees them (go/types)\<close>

text \<open>
  The resolver inspects values of \<open>types.Type\<close> by type switches.  The datatype has one
  constructor for every case the resolver distinguishes, and keeps the remaining kinds
  of types (channels, functions, type parameters) apart so that the default branches can
  be exercised.  \<open>Named pkg name u\<close> is a defined type: \<open>pkg\<close> is the path of its package
  (\<^const>\<open>None\<close> for a universe type such as \<open>error\<close>) and \<open>u\<close> is what \<open>Underlying()\<close>
  returns.  A struct type lists its fields in order as (name, type, tag).  The basic
  kind \<open>types.Int\<close> is \<open>IntKind\<close> here, as \<open>Int\<close> is the intersection of sets.
\<close>

datatype BasicKind =
    Invalid | Bool | IntKind | Int8 | Int16 | Int32 | Int64
  | Uint | Uint8 | Uint16 | Uint32 | Uint64 | Uintptr
  | Float32 | Float64 | Complex64 | Complex128 | String | UnsafePointer
  | UntypedBool | UntypedInt | UntypedRune | UntypedFloat | UntypedComplex
  | UntypedString | UntypedNil

datatype GoType =
    Basic BasicKind
  | Pointer GoType
  | Slice GoType
  | Array nat GoType
  | Map GoType GoType
  | Struct "(string \<times> GoType \<times> string) list"
  | Named "string option" string GoType
  | Alias string GoType
  | Interface
  | Chan GoType
  | Signature
  | TypeParam string

text \<open>The first step of every resolver function: \<open>if ptr, ok := t.(*types.Pointer); ok { t = ptr.Elem() }\<close>.\<close>

fun unwrapPointer :: "GoType \<Rightarrow> GoType" where
  "unwrapPointer (Pointer e) = e"
| "unwrapPointer t = t"

text \<open>
  \<open>token.IsExported\<close> applies \<open>unicode.IsUpper\<close> to the first rune of the name.  The
  Unicode tables are not modelled: \<open>Exported\<close> tests the first byte for \<open>A\<close>..\<open>Z\<close>, which
  is the same test for every name whose first byte is ASCII (and for the empty name),
  and differs for a name that starts with a non-ASCII upper-case letter.
\<close>

definition Exported :: "string \<Rightarrow> bool" where
  "Exported name =
     (case name of
        [] \<Rightarrow> False
      | c # _ \<Rightarrow> (65::nat) \<le> of_char c \<and> (of_char c :: nat) \<le> 90)"

section \<open>Struct tags (reflect.StructTag)\<close>

text \<open>
  \<open>StructTag.Lookup\<close> of the standard library, which the resolver reaches through
  \<open>StructTag.Get\<close>: a tag is a sequence of \<open>key:"value"\<close> pairs separated by spaces.
  The value is unquoted with \<open>strconv.Unquote\<close>.  Escape sequences inside a quoted
  value are not modelled: \<open>Unquote\<close> takes a value that holds a backslash for
  malformed, where the library decodes the escape, and it returns a value holding
  bytes that are not valid UTF-8 unchanged, where the library replaces them.  On a tag
  of ASCII bytes without a backslash \<open>StructTagLookup\<close> is the library function.
\<close>

definition tagKeyChar :: "char \<Rightarrow> bool" where
  "tagKeyChar c \<longleftrightarrow>
     (of_char c :: nat) > 32 \<and> c \<noteq> CHR '':'' \<and> c \<noteq> CHR 0x22 \<and> c \<noteq> CHR 0x7F"

text \<open>
  The scan for the closing quote: \<open>scanQuoted s i\<close> is the loop at index \<open>i\<close> with
  \<open>s = tag[i:]\<close>; the result is the index of the closing quote.
\<close>

fun scanQuoted :: "string \<Rightarrow> nat \<Rightarrow> nat option" where
  "scanQuoted [] i = None"
| "scanQuoted (c # cs) i =
     (if c = CHR 0x22 then Some i
      else if c = CHR 0x5C then
        (case cs of [] \<Rightarrow> None | _ # cs' \<Rightarrow> scanQuoted cs' (i + 2))
      else scanQuoted cs (i + 1))"

definition Unquote :: "string \<Rightarrow> string option" where
  "Unquote q =
     (let inner = take (length q - 2) (drop 1 q) in
      if CHR 0x5C \<in> set inner \<or> CHR 0x0A \<in> set inner then None else Some inner)"

function StructTagLookup :: "string \<Rightarrow> string \<Rightarrow> string option" where
  "StructTagLookup tag key =
     (let tag = dropWhile (\<lambda>c. c = CHR '' '') tag in
      if tag = [] then None
      else
        let i = length (takeWhile tagKeyChar tag) in
        if i = 0 \<or> i + 1 \<ge> length tag \<or> tag ! i \<noteq> CHR '':'' \<or> tag ! (i + 1) \<noteq> CHR 0x22
        then None
        else
          let name = take i tag; tag = drop (i + 1) tag in
          (case scanQuoted (drop 1 tag) 1 of
             None \<Rightarrow> None
           | Some j \<Rightarrow>
               let qvalue = take (j + 1) tag; tag = drop (j + 1) tag in
               if key = name then Unquote qvalue
               else StructTagLookup tag key))"
  by pat_completeness auto
termination
proof (relation "measure (\<lambda>(tag, key). length tag)")
  show "wf (measure (\<lambda>(tag, key). length tag))" by simp
next
  fix tag key :: string and x xa xb xc x2 xd xe
  assume a: "x = dropWhile (\<lambda>c. c = CHR '' '') tag" "xa = length (takeWhile tagKeyChar x)"
    "xc = drop (xa + 1) x" "xe = drop (x2 + 1) xc"
    "\<not> (xa = 0 \<or> length x \<le> xa + 1 \<or> x ! xa \<noteq> CHR '':'' \<or> x ! (xa + 1) \<noteq> CHR 0x22)"
  have "length x \<le> length tag" unfolding a(1) by (rule length_dropWhile_le)
  moreover have "length xe < length x" using a by auto
  ultimately show "((xe, key), (tag, key)) \<in> measure (\<lambda>(tag, key). length tag)" by simp
qed

definition StructTagGet :: "string \<Rightarrow> string \<Rightarrow> string" where
  "StructTagGet tag key = (case StructTagLookup tag key of Some v \<Rightarrow> v | None \<Rightarrow> [])"

section \<open>Field names from struct tags (package resolver)\<close>

definition extractTagName :: "string \<Rightarrow> string \<Rightarrow> string" where
  "extractTagName tag key =
     (let v = StructTagGet tag key in
      if v = [] then []
      else (case SplitByte v (CHR '','') of p # _ \<Rightarrow> p | [] \<Rightarrow> []))"

definition SupportedTags :: "string list" where
  "SupportedTags = [''json'', ''xml'']"

text \<open>
  The loop of \<open>resolveFieldNameFromTag\<close> over the supported tag keys; a result of
  \<^const>\<open>None\<close> is the loop running to its end.
\<close>

fun resolveFromTags :: "string \<Rightarrow> string list \<Rightarrow> string option" where
  "resolveFromTags tag [] = None"
| "resolveFromTags tag (tagKey # keys) =
     (let tagValue = StructTagGet tag tagKey in
      if tagValue = [] then resolveFromTags tag keys
      else if tagValue = ''-'' then Some []
      else
        let name = (case Index tagValue '','' of
                      Some idx \<Rightarrow> take idx tagValue
                    | None \<Rightarrow> tagValue) in
        if name = [] then resolveFromTags tag keys
        else Some name)"

definition resolveFieldNameFromTag :: "string \<Rightarrow> string \<Rightarrow> string" where
  "resolveFieldNameFromTag tag goFieldName =
     (case resolveFromTags tag SupportedTags of
        Some name \<Rightarrow> name
      | None \<Rightarrow> goFieldName)"

section \<open>Type resolution (package resolver)\<close>

record TypeInfo =
  tiOpenAPIType :: string
  tiFormat :: string
  tiIsArray :: bool
  tiItemsType :: string
  tiIsNullable :: bool
  tiIsAnyValue :: bool

text \<open>The zero value \<open>&TypeInfo{}\<close>.\<close>

definition emptyTypeInfo :: TypeInfo where
  "emptyTypeInfo =
     \<lparr>tiOpenAPIType = [], tiFormat = [], tiIsArray = False, tiItemsType = [],
      tiIsNullable = False, tiIsAnyValue = False\<rparr>"

text \<open>
  The table \<open>specialTypes\<close>: standard-library struct types treated as primitives.  The
  result is the pair (openAPIType, format).
\<close>

definition resolveSpecialType :: "string \<Rightarrow> string \<Rightarrow> (string \<times> string) option" where
  "resolveSpecialType pkgPath typeName =
     (if pkgPath = ''time'' then
        (if typeName = ''Time'' then Some (''string'', ''date-time'') else None)
      else if pkgPath = ''net/url'' then
        (if typeName = ''URL'' then Some (''string'', ''uri'') else None)
      else if pkgPath = ''net/netip'' then
        (if typeName = ''Addr'' \<or> typeName = ''AddrPort'' \<or> typeName = ''Prefix''
         then Some (''string'', []) else None)
      else if pkgPath = ''math/big'' then
        (if typeName = ''Int'' \<or> typeName = ''Float'' \<or> typeName = ''Rat''
         then Some (''string'', []) else None)
      else if pkgPath = ''regexp'' then
        (if typeName = ''Regexp'' then Some (''string'', []) else None)
      else None)"

definition isSpecialType :: "string \<Rightarrow> string \<Rightarrow> bool" where
  "isSpecialType pkgPath typeName \<longleftrightarrow> resolveSpecialType pkgPath typeName \<noteq> None"

text \<open>The \<open>switch basic.Kind()\<close> of \<open>resolveType\<close>, applied to the fresh \<open>info\<close>.\<close>

fun basicTypeInfo :: "BasicKind \<Rightarrow> TypeInfo \<Rightarrow> TypeInfo" where
  "basicTypeInfo Bool info = info\<lparr>tiOpenAPIType := ''boolean''\<rparr>"
| "basicTypeInfo IntKind info = info\<lparr>tiOpenAPIType := ''integer''\<rparr>"
| "basicTypeInfo Int8 info = info\<lparr>tiOpenAPIType := ''integer''\<rparr>"
| "basicTypeInfo Int16 info = info\<lparr>tiOpenAPIType := ''integer''\<rparr>"
| "basicTypeInfo Int32 info = info\<lparr>tiOpenAPIType := ''integer'', tiFormat := ''int32''\<rparr>"
| "basicTypeInfo Int64 info = info\<lparr>tiOpenAPIType := ''integer'', tiFormat := ''int64''\<rparr>"
| "basicTypeInfo Uint info = info\<lparr>tiOpenAPIType := ''integer''\<rparr>"
| "basicTypeInfo Uint8 info = info\<lparr>tiOpenAPIType := ''integer''\<rparr>"
| "basicTypeInfo Uint16 info = info\<lparr>tiOpenAPIType := ''integer''\<rparr>"
| "basicTypeInfo Uint32 info = info\<lparr>tiOpenAPIType := ''integer''\<rparr>"
| "basicTypeInfo Uint64 info = info\<lparr>tiOpenAPIType := ''integer''\<rparr>"
| "basicTypeInfo Float32 info = info\<lparr>tiOpenAPIType := ''number'', tiFormat := ''float''\<rparr>"
| "basicTypeInfo Float64 info = info\<lparr>tiOpenAPIType := ''number'', tiFormat := ''double''\<rparr>"
| "basicTypeInfo String info = info\<lparr>tiOpenAPIType := ''string''\<rparr>"
| "basicTypeInfo _ info = info\<lparr>tiOpenAPIType := ''string''\<rparr>"

text \<open>
  The resolver's \<open>typeCache\<close> maps the printed form \<open>t.String()\<close> of a type to its
  \<open>TypeInfo\<close>.  go/types prints different types of a package differently, so the model
  keys the cache by the type itself.  \<open>resolveType\<close> returns the \<open>TypeInfo\<close> together
  with the cache as it leaves it.  The entry is written under the type the function was
  called with, before the pointer was removed.
\<close>

type_synonym typeCache = "GoType \<rightharpoonup> TypeInfo"

function resolveType :: "typeCache \<Rightarrow> GoType \<Rightarrow> TypeInfo \<times> typeCache" where
  "resolveType cache t =
     (case cache t of
        Some cached \<Rightarrow> (cached, cache)
      | None \<Rightarrow>
          let info = emptyTypeInfo;
              info = (case t of Pointer _ \<Rightarrow> info\<lparr>tiIsNullable := True\<rparr> | _ \<Rightarrow> info)
          in
          (case unwrapPointer t of
             Slice elem \<Rightarrow>
               let (elemInfo, cache) = resolveType cache elem;
                   info = info\<lparr>tiIsArray := True, tiItemsType := tiOpenAPIType elemInfo,
                                tiOpenAPIType := ''array''\<rparr>
               in (info, cache(t \<mapsto> info))
           | Alias _ rhs \<Rightarrow> resolveType cache rhs
           | Named pkg name underlying \<Rightarrow>
               let pkgPath = (case pkg of Some path \<Rightarrow> path | None \<Rightarrow> []) in
               (case resolveSpecialType pkgPath name of
                  Some (openAPIType, format) \<Rightarrow>
                    let info = info\<lparr>tiOpenAPIType := openAPIType, tiFormat := format\<rparr>
                    in (info, cache(t \<mapsto> info))
                | None \<Rightarrow> resolveType cache underlying)
           | Basic kind \<Rightarrow>
               let info = basicTypeInfo kind info in (info, cache(t \<mapsto> info))
           | Interface \<Rightarrow>
               let info = info\<lparr>tiIsAnyValue := True\<rparr> in (info, cache(t \<mapsto> info))
           | _ \<Rightarrow>
               let info = info\<lparr>tiOpenAPIType := ''string''\<rparr> in (info, cache(t \<mapsto> info))))"
  by pat_completeness auto
termination
proof (relation "measure (\<lambda>(cache, t). size t)")
  show "wf (measure (\<lambda>(cache, t). size t))" by simp
qed (auto elim: unwrapPointer.elims)

section \<open>Resolved fields (package resolver)\<close>

text \<open>
  \<open>float64\<close> values are only stored and passed on by the resolver; the type is left
  abstract.
\<close>

typedecl float64

text \<open>
  The Go struct \<open>ResolvedField\<close> refers to itself through three slices of nested
  fields.  Its scalar fields form the record \<open>FieldCore\<close>; the datatype
  \<open>ResolvedField\<close> adds the three slices, where \<^const>\<open>None\<close> is the \<open>nil\<close> slice.
  The field selectors carry the prefix \<open>rf\<close>.
\<close>

record FieldCore =
  rfName :: string
  rfGoName :: string
  rfDescription :: string
  rfRequired :: bool
  rfNullable :: bool
  rfDeprecated :: bool
  rfGoType :: string
  rfOpenAPIType :: string
  rfFormat :: string
  rfIsArray :: bool
  rfItemsType :: string
  rfIsMap :: bool
  rfIsAnyValue :: bool
  rfIsUnresolvedStruct :: bool
  rfUnresolvedTypeName :: string
  rfEnum :: "string list"
  rfDefault :: string
  rfExample :: string
  rfPattern :: string
  rfMinLength :: "int option"
  rfMaxLength :: "int option"
  rfMinItems :: "int option"
  rfMaxItems :: "int option"
  rfUniqueItems :: bool
  rfMinimum :: "float64 option"
  rfMaximum :: "float64 option"

datatype ResolvedField =
  ResolvedField
    (rfCore: FieldCore)
    (rfItemsInlineFields: "ResolvedField list option")
    (rfMapValueInlineFields: "ResolvedField list option")
    (rfInlineFields: "ResolvedField list option")

definition emptyFieldCore :: FieldCore where
  "emptyFieldCore =
     \<lparr>rfName = [], rfGoName = [], rfDescription = [], rfRequired = False,
      rfNullable = False, rfDeprecated = False, rfGoType = [], rfOpenAPIType = [],
      rfFormat = [], rfIsArray = False, rfItemsType = [], rfIsMap = False,
      rfIsAnyValue = False, rfIsUnresolvedStruct = False, rfUnresolvedTypeName = [],
      rfEnum = [], rfDefault = [], rfExample = [], rfPattern = [],
      rfMinLength = None, rfMaxLength = None, rfMinItems = None, rfMaxItems = None,
      rfUniqueItems = False, rfMinimum = None, rfMaximum = None\<rparr>"

text \<open>
  The parser's \<open>Field\<close>: what a \<open>@field\<close> annotation says about a struct field.  The
  selectors carry the prefix \<open>pf\<close>.
\<close>

record Field =
  pfName :: string
  pfGoName :: string
  pfGoType :: string
  pfRequired :: bool
  pfNullable :: bool
  pfDescription :: string
  pfFormat :: string
  pfExample :: string
  pfEnum :: "string list"
  pfDefault :: string
  pfMinimum :: "float64 option"
  pfMaximum :: "float64 option"
  pfMinLength :: "int option"
  pfMaxLength :: "int option"
  pfMinItems :: "int option"
  pfMaxItems :: "int option"
  pfUniqueItems :: bool
  pfPattern :: string
  pfDeprecated :: bool

text \<open>
  The printed form of a type (\<open>types.Type.String()\<close> of go/types), which the resolver
  stores in the field \<open>GoType\<close> and uses for nothing else.
\<close>

function showNat :: "nat \<Rightarrow> string" where
  "showNat n =
     (if n < 10 then [char_of (48 + n)]
      else showNat (n div 10) @ [char_of (48 + n mod 10)])"
  by pat_completeness auto
termination
  by (relation "measure id") auto

fun basicName :: "BasicKind \<Rightarrow> string" where
  "basicName Invalid = ''invalid type''"
| "basicName Bool = ''bool''"
| "basicName IntKind = ''int''"
| "basicName Int8 = ''int8''"
| "basicName Int16 = ''int16''"
| "basicName Int32 = ''int32''"
| "basicName Int64 = ''int64''"
| "basicName Uint = ''uint''"
| "basicName Uint8 = ''uint8''"
| "basicName Uint16 = ''uint16''"
| "basicName Uint32 = ''uint32''"
| "basicName Uint64 = ''uint64''"
| "basicName Uintptr = ''uintptr''"
| "basicName Float32 = ''float32''"
| "basicName Float64 = ''float64''"
| "basicName Complex64 = ''complex64''"
| "basicName Complex128 = ''complex128''"
| "basicName String = ''string''"
| "basicName UnsafePointer = ''unsafe.Pointer''"
| "basicName UntypedBool = ''untyped bool''"
| "basicName UntypedInt = ''untyped int''"
| "basicName UntypedRune = ''untyped rune''"
| "basicName UntypedFloat = ''untyped float''"
| "basicName UntypedComplex = ''untyped complex''"
| "basicName UntypedString = ''untyped string''"
| "basicName UntypedNil = ''untyped nil''"

fun typeString :: "GoType \<Rightarrow> string"
  and fieldsString :: "(string \<times> GoType \<times> string) list \<Rightarrow> string" where
  "typeString (Basic k) = basicName k"
| "typeString (Pointer e) = ''*'' @ typeString e"
| "typeString (Slice e) = ''[]'' @ typeString e"
| "typeString (Array n e) = ''['' @ showNat n @ '']'' @ typeString e"
| "typeString (Map k v) = ''map['' @ typeString k @ '']'' @ typeString v"
| "typeString (Struct flds) = ''struct{'' @ fieldsString flds @ ''}''"
| "typeString (Named pkg name u) =
     (case pkg of Some path \<Rightarrow> path @ ''.'' @ name | None \<Rightarrow> name)"
| "typeString (Alias name rhs) = name"
| "typeString Interface = ''interface{}''"
| "typeString (Chan e) = ''chan '' @ typeString e"
| "typeString Signature = ''func()''"
| "typeString (TypeParam name) = name"
| "fieldsString [] = []"
| "fieldsString ((name, t, tag) # rest) =
     name @ '' '' @ typeString t
       @ (if tag = [] then []
          else '' '' @ [CHR 0x22]
            @ concat (map (\<lambda>c. if c = CHR 0x22 \<or> c = CHR 0x5C then [CHR 0x5C, c] else [c]) tag)
            @ [CHR 0x22])
       @ (if rest = [] then [] else ''; '' @ fieldsString rest)"

text \<open>
  \<open>checkUnresolvedStruct\<close> marks the field when the type leads, through pointers,
  slices, maps and named slices or maps, to a named struct that is neither a special
  type nor a declared schema.  \<open>schemaNames\<close> is a \<open>map[string]bool\<close>, read as a
  predicate (a missing key reads as false).
\<close>

function checkUnresolvedStruct ::
  "GoType \<Rightarrow> FieldCore \<Rightarrow> (string \<Rightarrow> bool) \<Rightarrow> FieldCore" where
  "checkUnresolvedStruct t resolved schemaNames =
     (case unwrapPointer t of
        Slice elem \<Rightarrow> checkUnresolvedStruct elem resolved schemaNames
      | Map key elem \<Rightarrow> checkUnresolvedStruct elem resolved schemaNames
      | Named pkg name underlying \<Rightarrow>
          if pkg \<noteq> None \<and> isSpecialType (the pkg) name then resolved
          else
            (case underlying of
               Struct _ \<Rightarrow>
                 if \<not> schemaNames name
                 then resolved\<lparr>rfIsUnresolvedStruct := True, rfUnresolvedTypeName := name\<rparr>
                 else resolved
             | _ \<Rightarrow> checkUnresolvedStruct underlying resolved schemaNames)
      | _ \<Rightarrow> resolved)"
  by pat_completeness auto
termination
proof (relation "measure (\<lambda>(t, resolved, schemaNames). size t)")
  show "wf (measure (\<lambda>(t, resolved, schemaNames). size t))" by simp
qed (auto elim: unwrapPointer.elims)

text \<open>
  The six assignments that copy a \<open>TypeInfo\<close> into a resolved field; the source writes
  them out at each of its four uses.
\<close>

definition withTypeInfo :: "FieldCore \<Rightarrow> TypeInfo \<Rightarrow> FieldCore" where
  "withTypeInfo resolved typeInfo =
     resolved\<lparr>rfOpenAPIType := tiOpenAPIType typeInfo,
              rfFormat := tiFormat typeInfo,
              rfIsArray := tiIsArray typeInfo,
              rfItemsType := tiItemsType typeInfo,
              rfNullable := tiIsNullable typeInfo,
              rfIsAnyValue := tiIsAnyValue typeInfo\<rparr>"

section \<open>Anonymous structs (package resolver)\<close>

text \<open>
  \<open>resolveAnonymousStruct\<close> returns the resolved fields of an anonymous struct (behind
  at most one pointer) and \<open>nil\<close> for every other type; the slice it builds with
  \<open>make\<close> is not \<open>nil\<close> even when it is empty.  \<open>resolveAnonFields\<close> is its loop over
  the struct's fields.  The functions pass the type cache along.
\<close>

function resolveAnonymousStruct ::
    "typeCache \<Rightarrow> GoType \<Rightarrow> (string \<Rightarrow> bool) \<Rightarrow> ResolvedField list option \<times> typeCache"
  and resolveAnonFields ::
    "typeCache \<Rightarrow> (string \<times> GoType \<times> string) list \<Rightarrow> (string \<Rightarrow> bool)
      \<Rightarrow> ResolvedField list \<times> typeCache"
  and resolveSliceOfAnonymousStruct ::
    "typeCache \<Rightarrow> GoType \<Rightarrow> (string \<Rightarrow> bool) \<Rightarrow> ResolvedField list option \<times> typeCache"
  and resolveMapOfAnonymousStruct ::
    "typeCache \<Rightarrow> GoType \<Rightarrow> (string \<Rightarrow> bool) \<Rightarrow> ResolvedField list option \<times> typeCache"
  where
  "resolveAnonymousStruct cache t schemaNames =
     (case unwrapPointer t of
        Struct structFields \<Rightarrow>
          (case resolveAnonFields cache structFields schemaNames of
             (out, cache) \<Rightarrow> (Some out, cache))
      | _ \<Rightarrow> (None, cache))"
| "resolveAnonFields cache [] schemaNames = ([], cache)"
| "resolveAnonFields cache ((fname, ftype, tag) # rest) schemaNames =
     (if \<not> Exported fname then resolveAnonFields cache rest schemaNames
      else
        let fieldName = resolveFieldNameFromTag tag fname in
        if fieldName = [] then resolveAnonFields cache rest schemaNames
        else
          let resolvedField =
                emptyFieldCore\<lparr>rfName := fieldName, rfGoName := fname,
                                rfGoType := typeString ftype\<rparr>;
              resolvedField = resolvedField\<lparr>rfRequired := \<not> Contains tag ''omitempty''\<rparr>
          in
          (case
             (case resolveAnonymousStruct cache ftype schemaNames of
                (Some nestedFields, cache) \<Rightarrow>
                  (ResolvedField (resolvedField\<lparr>rfOpenAPIType := ''object''\<rparr>)
                     None None (Some nestedFields), cache)
              | (None, cache) \<Rightarrow>
                  (case resolveSliceOfAnonymousStruct cache ftype schemaNames of
                     (Some itemFields, cache) \<Rightarrow>
                       (ResolvedField
                          (resolvedField\<lparr>rfIsArray := True, rfOpenAPIType := ''array'',
                                           rfItemsType := ''object''\<rparr>)
                          (Some itemFields) None None, cache)
                   | (None, cache) \<Rightarrow>
                       (case resolveMapOfAnonymousStruct cache ftype schemaNames of
                          (Some mapValueFields, cache) \<Rightarrow>
                            (ResolvedField
                               (resolvedField\<lparr>rfIsMap := True, rfOpenAPIType := ''object''\<rparr>)
                               None (Some mapValueFields) None, cache)
                        | (None, cache) \<Rightarrow>
                            (case resolveType cache ftype of
                               (typeInfo, cache) \<Rightarrow>
                                 (ResolvedField
                                    (withTypeInfo
                                       (checkUnresolvedStruct ftype resolvedField schemaNames)
                                       typeInfo)
                                    None None None, cache)))))
           of (field, cache) \<Rightarrow>
             (case resolveAnonFields cache rest schemaNames of
                (out, cache) \<Rightarrow> (field # out, cache))))"
| "resolveSliceOfAnonymousStruct cache t schemaNames =
     (case unwrapPointer t of
        Slice elem \<Rightarrow> resolveAnonymousStruct cache elem schemaNames
      | _ \<Rightarrow> (None, cache))"
| "resolveMapOfAnonymousStruct cache t schemaNames =
     (case unwrapPointer t of
        Map key elem \<Rightarrow> resolveAnonymousStruct cache elem schemaNames
      | _ \<Rightarrow> (None, cache))"
  by pat_completeness auto
termination
proof (relation "measure (\<lambda>x. case x of
         Inl (Inl (cache, t, names)) \<Rightarrow> 2 * size t + 1
       | Inl (Inr (cache, flds, names)) \<Rightarrow> 2 * size (Struct flds)
       | Inr (Inl (cache, t, names)) \<Rightarrow> 2 * size t + 2
       | Inr (Inr (cache, t, names)) \<Rightarrow> 2 * size t + 2)")
  show "wf (measure (\<lambda>x. case x of
         Inl (Inl (cache, t, names)) \<Rightarrow> 2 * size t + 1
       | Inl (Inr (cache, flds, names)) \<Rightarrow> 2 * size (Struct flds)
       | Inr (Inl (cache, t, names)) \<Rightarrow> 2 * size t + 2
       | Inr (Inr (cache, t, names)) \<Rightarrow> 2 * size t + 2))" by simp
qed (auto elim: unwrapPointer.elims)

section \<open>Resolving struct fields (package resolver)\<close>

text \<open>
  The annotation overrides at the end of \<open>resolveField\<close>: a sequence of
  \<open>if annotation.X != zero { resolved.X = annotation.X }\<close>, one for each constraint, and
  the assignment of \<open>Deprecated\<close>.  Every statement writes a field of its own, so the
  sequence is one record update whose values are conditional.
\<close>

definition applyFieldOverrides :: "Field option \<Rightarrow> FieldCore \<Rightarrow> FieldCore" where
  "applyFieldOverrides annotation resolved =
     (case annotation of
        None \<Rightarrow> resolved
      | Some a \<Rightarrow>
          resolved
            \<lparr>rfDescription :=
               (if pfDescription a \<noteq> [] then pfDescription a else rfDescription resolved),
             rfFormat := (if pfFormat a \<noteq> [] then pfFormat a else rfFormat resolved),
             rfExample := (if pfExample a \<noteq> [] then pfExample a else rfExample resolved),
             rfDefault := (if pfDefault a \<noteq> [] then pfDefault a else rfDefault resolved),
             rfPattern := (if pfPattern a \<noteq> [] then pfPattern a else rfPattern resolved),
             rfEnum := (if length (pfEnum a) > 0 then pfEnum a else rfEnum resolved),
             rfMinLength :=
               (if pfMinLength a \<noteq> None then pfMinLength a else rfMinLength resolved),
             rfMaxLength :=
               (if pfMaxLength a \<noteq> None then pfMaxLength a else rfMaxLength resolved),
             rfMinItems := (if pfMinItems a \<noteq> None then pfMinItems a else rfMinItems resolved),
             rfMaxItems := (if pfMaxItems a \<noteq> None then pfMaxItems a else rfMaxItems resolved),
             rfUniqueItems := (if pfUniqueItems a then True else rfUniqueItems resolved),
             rfMinimum := (if pfMinimum a \<noteq> None then pfMinimum a else rfMinimum resolved),
             rfMaximum := (if pfMaximum a \<noteq> None then pfMaximum a else rfMaximum resolved),
             rfDeprecated := pfDeprecated a\<rparr>)"

text \<open>
  \<open>resolveField\<close> resolves one field of a schema struct; \<open>field\<close> is the
  \<open>types.Var\<close> (name and type).  The Go function returns \<open>nil\<close> for a field that is
  skipped and never an error.
\<close>

definition resolveField ::
  "typeCache \<Rightarrow> string \<times> GoType \<Rightarrow> string \<Rightarrow> Field option \<Rightarrow> (string \<Rightarrow> bool)
     \<Rightarrow> ResolvedField option \<times> typeCache" where
  "resolveField cache field tag annotation schemaNames =
     (case field of (fname, ftype) \<Rightarrow>
      if \<not> Exported fname then (None, cache)
      else
        let fieldName = resolveFieldNameFromTag tag fname in
        if fieldName = [] then (None, cache)
        else
          let resolved =
                emptyFieldCore\<lparr>rfName := fieldName, rfGoName := fname,
                                rfGoType := typeString ftype\<rparr>;
              resolved = resolved\<lparr>rfRequired := \<not> Contains tag ''omitempty''\<rparr>
          in
          (case
             (case resolveAnonymousStruct cache ftype schemaNames of
                (Some inlineFields, cache) \<Rightarrow>
                  (ResolvedField (resolved\<lparr>rfOpenAPIType := ''object''\<rparr>)
                     None None (Some inlineFields), cache)
              | (None, cache) \<Rightarrow>
                  (case resolveSliceOfAnonymousStruct cache ftype schemaNames of
                     (Some itemFields, cache) \<Rightarrow>
                       (ResolvedField
                          (resolved\<lparr>rfIsArray := True, rfOpenAPIType := ''array'',
                                      rfItemsType := ''object''\<rparr>)
                          (Some itemFields) None None, cache)
                   | (None, cache) \<Rightarrow>
                       (case resolveMapOfAnonymousStruct cache ftype schemaNames of
                          (Some mapValueFields, cache) \<Rightarrow>
                            (ResolvedField
                               (resolved\<lparr>rfIsMap := True, rfOpenAPIType := ''object''\<rparr>)
                               None (Some mapValueFields) None, cache)
                        | (None, cache) \<Rightarrow>
                            (case resolveType cache ftype of
                               (typeInfo, cache) \<Rightarrow>
                                 (ResolvedField
                                    (withTypeInfo
                                       (checkUnresolvedStruct ftype resolved schemaNames)
                                       typeInfo)
                                    None None None, cache)))))
           of (ResolvedField core items mapValues inline, cache) \<Rightarrow>
             (Some (ResolvedField (applyFieldOverrides annotation core) items mapValues inline),
              cache)))"

text \<open>
  The overrides of \<open>resolveFieldWithParamType\<close> differ in their last two steps: the
  annotation can only set \<open>Nullable\<close> and \<open>Deprecated\<close>, not clear them.
\<close>

definition applyParamOverrides :: "Field option \<Rightarrow> FieldCore \<Rightarrow> FieldCore" where
  "applyParamOverrides annotation resolved =
     (case annotation of
        None \<Rightarrow> resolved
      | Some a \<Rightarrow>
          resolved
            \<lparr>rfDescription :=
               (if pfDescription a \<noteq> [] then pfDescription a else rfDescription resolved),
             rfFormat := (if pfFormat a \<noteq> [] then pfFormat a else rfFormat resolved),
             rfExample := (if pfExample a \<noteq> [] then pfExample a else rfExample resolved),
             rfDefault := (if pfDefault a \<noteq> [] then pfDefault a else rfDefault resolved),
             rfPattern := (if pfPattern a \<noteq> [] then pfPattern a else rfPattern resolved),
             rfEnum := (if length (pfEnum a) > 0 then pfEnum a else rfEnum resolved),
             rfMinLength :=
               (if pfMinLength a \<noteq> None then pfMinLength a else rfMinLength resolved),
             rfMaxLength :=
               (if pfMaxLength a \<noteq> None then pfMaxLength a else rfMaxLength resolved),
             rfMinItems := (if pfMinItems a \<noteq> None then pfMinItems a else rfMinItems resolved),
             rfMaxItems := (if pfMaxItems a \<noteq> None then pfMaxItems a else rfMaxItems resolved),
             rfUniqueItems := (if pfUniqueItems a then True else rfUniqueItems resolved),
             rfMinimum := (if pfMinimum a \<noteq> None then pfMinimum a else rfMinimum resolved),
             rfMaximum := (if pfMaximum a \<noteq> None then pfMaximum a else rfMaximum resolved),
             rfNullable := (if pfNullable a then True else rfNullable resolved),
             rfDeprecated := (if pfDeprecated a then True else rfDeprecated resolved)\<rparr>)"

definition resolveFieldWithParamType ::
  "typeCache \<Rightarrow> string \<times> GoType \<Rightarrow> string \<Rightarrow> Field option \<Rightarrow> string
     \<Rightarrow> ResolvedField option \<times> typeCache" where
  "resolveFieldWithParamType cache field tag annotation paramType =
     (case field of (fname, ftype) \<Rightarrow>
      if \<not> Exported fname then (None, cache)
      else
        let tagName =
              (if paramType = ''path'' then Some (extractTagName tag ''path'')
               else if paramType = ''query'' then Some (extractTagName tag ''query'')
               else if paramType = ''header'' then Some (extractTagName tag ''header'')
               else if paramType = ''cookie'' then Some (extractTagName tag ''cookie'')
               else
                 let tagName = resolveFieldNameFromTag tag fname in
                 if tagName = [] then None else Some tagName)
        in
        (case tagName of
           None \<Rightarrow> (None, cache)
         | Some tagName \<Rightarrow>
             let tagName = (if tagName = ''-'' \<or> tagName = [] then fname else tagName);
                 resolved =
                   emptyFieldCore\<lparr>rfName := tagName, rfGoName := fname,
                                   rfGoType := typeString ftype\<rparr>;
                 resolved = resolved\<lparr>rfRequired := \<not> Contains tag ''omitempty''\<rparr>
             in
             (case resolveType cache ftype of
                (typeInfo, cache) \<Rightarrow>
                  (Some (ResolvedField
                           (applyParamOverrides annotation (withTypeInfo resolved typeInfo))
                           None None None),
                   cache))))"

section \<open>Inline declarations (package resolver)\<close>

text \<open>
  A field of an \<open>ast.StructType\<close>: its names (none for an embedded field), the tag
  literal as written in the source (with its back quotes) when there is one, and the type
  that \<open>TypesInfo.Types\<close> records for the field's type expression, if any.
\<close>

record AstField =
  afNames :: "string list"
  afTag :: "string option"
  afType :: "GoType option"

text \<open>
  The \<open>switch annotName\<close> of \<open>applyFieldAnnotations\<close>.  \<open>parseFloat\<close> and
  \<open>parseInt\<close> stand for the two calls of \<open>fmt.Sscanf\<close>; they are parameters, with
  \<^const>\<open>None\<close> for a scan error.
\<close>

definition applyAnnotation ::
  "(string \<Rightarrow> float64 option) \<Rightarrow> (string \<Rightarrow> int option) \<Rightarrow> FieldCore \<Rightarrow> string
     \<Rightarrow> string \<Rightarrow> FieldCore" where
  "applyAnnotation parseFloat parseInt field annotName annotValue =
     (if annotName = ''@description'' then field\<lparr>rfDescription := annotValue\<rparr>
      else if annotName = ''@format'' then field\<lparr>rfFormat := annotValue\<rparr>
      else if annotName = ''@example'' then field\<lparr>rfExample := annotValue\<rparr>
      else if annotName = ''@default'' then field\<lparr>rfDefault := annotValue\<rparr>
      else if annotName = ''@pattern'' then field\<lparr>rfPattern := annotValue\<rparr>
      else if annotName = ''@enum'' then
        field\<lparr>rfEnum := map TrimSpace (SplitByte annotValue (CHR '',''))\<rparr>
      else if annotName = ''@deprecated'' then field\<lparr>rfDeprecated := True\<rparr>
      else if annotName = ''@minimum'' then
        (case parseFloat annotValue of
           Some val \<Rightarrow> field\<lparr>rfMinimum := Some val\<rparr> | None \<Rightarrow> field)
      else if annotName = ''@maximum'' then
        (case parseFloat annotValue of
           Some val \<Rightarrow> field\<lparr>rfMaximum := Some val\<rparr> | None \<Rightarrow> field)
      else if annotName = ''@minLength'' then
        (case parseInt annotValue of
           Some val \<Rightarrow> field\<lparr>rfMinLength := Some val\<rparr> | None \<Rightarrow> field)
      else if annotName = ''@maxLength'' then
        (case parseInt annotValue of
           Some val \<Rightarrow> field\<lparr>rfMaxLength := Some val\<rparr> | None \<Rightarrow> field)
      else if annotName = ''@minItems'' then
        (case parseInt annotValue of
           Some val \<Rightarrow> field\<lparr>rfMinItems := Some val\<rparr> | None \<Rightarrow> field)
      else if annotName = ''@maxItems'' then
        (case parseInt annotValue of
           Some val \<Rightarrow> field\<lparr>rfMaxItems := Some val\<rparr> | None \<Rightarrow> field)
      else if annotName = ''@uniqueItems'' then field\<lparr>rfUniqueItems := True\<rparr>
      else field)"

text \<open>
  One part of an inline \<open>@field\<close> comment, between two \<open>@\<close> signs: the text up to the
  first space is the annotation's name, the rest its value.
\<close>

definition applyAnnotationPart ::
  "(string \<Rightarrow> float64 option) \<Rightarrow> (string \<Rightarrow> int option) \<Rightarrow> FieldCore \<Rightarrow> string
     \<Rightarrow> FieldCore" where
  "applyAnnotationPart parseFloat parseInt field part0 =
     (let part = TrimSpace part0 in
      if part = [] then field
      else
        (case Index part '' '' of
           Some spaceIdx \<Rightarrow>
             if spaceIdx > 0
             then applyAnnotation parseFloat parseInt field (''@'' @ take spaceIdx part)
                    (TrimSpace (drop (spaceIdx + 1) part))
             else applyAnnotation parseFloat parseInt field (''@'' @ part) []
         | None \<Rightarrow> applyAnnotation parseFloat parseInt field (''@'' @ part) []))"

text \<open>
  \<open>applyFieldAnnotations\<close>: every comment line that starts with \<open>@field\<close> and has its
  braces in order is cut at the \<open>@\<close> signs, and the parts are applied from left to
  right.  \<open>comment\<close> is the \<open>Lines\<close> of the comment block.
\<close>

definition applyAnnotationLine ::
  "(string \<Rightarrow> float64 option) \<Rightarrow> (string \<Rightarrow> int option) \<Rightarrow> FieldCore \<Rightarrow> string
     \<Rightarrow> FieldCore" where
  "applyAnnotationLine parseFloat parseInt field line0 =
     (let line = TrimSpace line0 in
      if \<not> HasPrefix line ''@field'' then field
      else
        (case (Index line ''{'', LastIndexByte line (CHR ''}'')) of
           (Some start, Some stop) \<Rightarrow>
             if stop \<le> start then field
             else
               let content = take (stop - (start + 1)) (drop (start + 1) line)
               in foldl (applyAnnotationPart parseFloat parseInt) field
                    (SplitByte content (CHR ''@''))
         | _ \<Rightarrow> field))"

definition applyFieldAnnotations ::
  "(string \<Rightarrow> float64 option) \<Rightarrow> (string \<Rightarrow> int option) \<Rightarrow> FieldCore \<Rightarrow> string list
     \<Rightarrow> FieldCore" where
  "applyFieldAnnotations parseFloat parseInt field comment =
     foldl (applyAnnotationLine parseFloat parseInt) field comment"

text \<open>
  The struct tag of an AST field: the tag literal without its back quotes, and the empty
  string when the field has no tag.
\<close>

definition astFieldTag :: "AstField \<Rightarrow> string" where
  "astFieldTag astField =
     (case afTag astField of
        None \<Rightarrow> []
      | Some lit \<Rightarrow>
          if length lit \<ge> 2 \<and> lit ! 0 = CHR 0x60 \<and> lit ! (length lit - 1) = CHR 0x60
          then take (length lit - 2) (drop 1 lit) else lit)"

text \<open>
  \<open>resolveInlineStructFields\<close> walks the fields of a struct declared inside a function
  body.  \<open>structFields\<close> is \<^const>\<open>None\<close> when the struct type or its field list is
  \<open>nil\<close>; \<open>fieldComments\<close> maps a field name to the lines of its comment block;
  \<open>schemaNames\<close> is \<^const>\<open>None\<close> for the \<open>nil\<close> map that the parameter path passes.
  \<open>inlineFieldsLoop\<close> is the loop.
\<close>

fun inlineFieldsLoop ::
  "(string \<Rightarrow> float64 option) \<Rightarrow> (string \<Rightarrow> int option) \<Rightarrow> typeCache \<Rightarrow> AstField list
     \<Rightarrow> (string \<rightharpoonup> string list) \<Rightarrow> string \<Rightarrow> (string \<Rightarrow> bool) option
     \<Rightarrow> ResolvedField list \<times> typeCache" where
  "inlineFieldsLoop parseFloat parseInt cache [] fieldComments tagType schemaNames = ([], cache)"
| "inlineFieldsLoop parseFloat parseInt cache (astField # rest) fieldComments tagType schemaNames =
     (case afNames astField of
        [] \<Rightarrow> inlineFieldsLoop parseFloat parseInt cache rest fieldComments tagType schemaNames
      | fieldName # _ \<Rightarrow>
          let tag = astFieldTag astField;
              resolvedName =
                (if tagType = ''path'' then Some (extractTagName tag ''path'')
                 else if tagType = ''query'' then Some (extractTagName tag ''query'')
                 else if tagType = ''header'' then Some (extractTagName tag ''header'')
                 else if tagType = ''cookie'' then Some (extractTagName tag ''cookie'')
                 else
                   let resolvedName = resolveFieldNameFromTag tag fieldName in
                   if resolvedName = [] then None else Some resolvedName)
          in
          (case resolvedName of
             None \<Rightarrow>
               inlineFieldsLoop parseFloat parseInt cache rest fieldComments tagType schemaNames
           | Some resolvedName \<Rightarrow>
               let resolvedName =
                     (if resolvedName = [] \<or> resolvedName = ''-'' then fieldName
                      else resolvedName);
                   resolved =
                     emptyFieldCore\<lparr>rfGoName := fieldName, rfName := resolvedName,
                                     rfRequired := \<not> Contains tag ''omitempty''\<rparr>
               in
               (case
                  (case afType astField of
                     None \<Rightarrow>
                       (ResolvedField
                          (resolved\<lparr>rfGoType := ''string'', rfOpenAPIType := ''string''\<rparr>)
                          None None None, cache)
                   | Some fieldType \<Rightarrow>
                       let resolved = resolved\<lparr>rfGoType := typeString fieldType\<rparr> in
                       (case
                          (case schemaNames of
                             None \<Rightarrow> (ResolvedField resolved None None None, cache)
                           | Some names \<Rightarrow>
                               (case resolveAnonymousStruct cache fieldType names of
                                  (Some inlineFields, cache) \<Rightarrow>
                                    (ResolvedField (resolved\<lparr>rfOpenAPIType := ''object''\<rparr>)
                                       None None (Some inlineFields), cache)
                                | (None, cache) \<Rightarrow>
                                    (case resolveSliceOfAnonymousStruct cache fieldType names of
                                       (Some itemFields, cache) \<Rightarrow>
                                         (ResolvedField
                                            (resolved\<lparr>rfIsArray := True,
                                                        rfOpenAPIType := ''array'',
                                                        rfItemsType := ''object''\<rparr>)
                                            (Some itemFields) None None, cache)
                                     | (None, cache) \<Rightarrow>
                                         (case resolveMapOfAnonymousStruct cache fieldType names of
                                            (Some mapValueFields, cache) \<Rightarrow>
                                              (ResolvedField
                                                 (resolved\<lparr>rfIsMap := True,
                                                             rfOpenAPIType := ''object''\<rparr>)
                                                 None (Some mapValueFields) None, cache)
                                          | (None, cache) \<Rightarrow>
                                              (ResolvedField resolved None None None, cache)))))
                        of (ResolvedField core items mapValues inline, cache) \<Rightarrow>
                          if rfOpenAPIType core = [] then
                            (case resolveType cache fieldType of
                               (typeInfo, cache) \<Rightarrow>
                                 (ResolvedField (withTypeInfo core typeInfo)
                                    items mapValues inline, cache))
                          else (ResolvedField core items mapValues inline, cache)))
                of (ResolvedField core items mapValues inline, cache) \<Rightarrow>
                  let core = (case fieldComments fieldName of
                                Some comment \<Rightarrow>
                                  applyFieldAnnotations parseFloat parseInt core comment
                              | None \<Rightarrow> core)
                  in
                  (case inlineFieldsLoop parseFloat parseInt cache rest fieldComments
                          tagType schemaNames of
                     (out, cache) \<Rightarrow>
                       (ResolvedField core items mapValues inline # out, cache)))))"

definition resolveInlineStructFields ::
  "(string \<Rightarrow> float64 option) \<Rightarrow> (string \<Rightarrow> int option) \<Rightarrow> typeCache
     \<Rightarrow> AstField list option \<Rightarrow> (string \<rightharpoonup> string list) \<Rightarrow> string
     \<Rightarrow> (string \<Rightarrow> bool) option \<Rightarrow> ResolvedField list option \<times> typeCache" where
  "resolveInlineStructFields parseFloat parseInt cache structFields fieldComments tagType
       schemaNames =
     (case structFields of
        None \<Rightarrow> (None, cache)
      | Some fieldList \<Rightarrow>
          (case inlineFieldsLoop parseFloat parseInt cache fieldList fieldComments tagType
                  schemaNames of
             (out, cache) \<Rightarrow> (Some out, cache)))"

section \<open>Reference notions used by the properties\<close>

text \<open>
  Decoding in a single pass from left to right: a backslash followed by one of the four
  escapable bytes yields that byte, and every other byte is copied.  This is what
  ``each escape sequence is decoded exactly once'' means; it is compared with
  \<^const>\<open>UnescapeValue\<close> below.
\<close>

fun unescapeOnce :: "string \<Rightarrow> string" where
  "unescapeOnce (c # n # rest) =
     (if c = CHR 0x5C \<and> isEscapable n then n # unescapeOnce rest
      else c # unescapeOnce (n # rest))"
| "unescapeOnce [c] = [c]"
| "unescapeOnce [] = []"

text \<open>Position \<open>p\<close> of \<open>line\<close> holds a \<open>{\<close> whose left neighbour is a space or a tab.\<close>

definition openerAt :: "string \<Rightarrow> nat \<Rightarrow> bool" where
  "openerAt line p \<longleftrightarrow>
     0 < p \<and> p < length line \<and> line ! p = CHR ''{'' \<and>
     (line ! (p - 1) = CHR '' '' \<or> line ! (p - 1) = CHR 0x09)"

text \<open>
  \<open>resolveType\<close> without its cache: the \<open>TypeInfo\<close> that the function computes for a
  type when no entry of the cache is hit.
\<close>

function typeInfoOf :: "GoType \<Rightarrow> TypeInfo" where
  "typeInfoOf t =
     (let info = emptyTypeInfo;
          info = (case t of Pointer _ \<Rightarrow> info\<lparr>tiIsNullable := True\<rparr> | _ \<Rightarrow> info)
      in
      (case unwrapPointer t of
         Slice elem \<Rightarrow>
           info\<lparr>tiIsArray := True, tiItemsType := tiOpenAPIType (typeInfoOf elem),
                tiOpenAPIType := ''array''\<rparr>
       | Alias _ rhs \<Rightarrow> typeInfoOf rhs
       | Named pkg name underlying \<Rightarrow>
           (case resolveSpecialType (case pkg of Some path \<Rightarrow> path | None \<Rightarrow> []) name of
              Some (openAPIType, format) \<Rightarrow>
                info\<lparr>tiOpenAPIType := openAPIType, tiFormat := format\<rparr>
            | None \<Rightarrow> typeInfoOf underlying)
       | Basic kind \<Rightarrow> basicTypeInfo kind info
       | Interface \<Rightarrow> info\<lparr>tiIsAnyValue := True\<rparr>
       | _ \<Rightarrow> info\<lparr>tiOpenAPIType := ''string''\<rparr>))"
  by pat_completeness auto
termination
proof (relation "measure size")
  show "wf (measure size)" by simp
qed (auto elim: unwrapPointer.elims)

text \<open>
  A cache is consistent when every entry is what \<open>resolveType\<close> returns for that type
  on the empty cache.  The empty cache is consistent, and \<open>resolveType\<close> keeps a cache
  consistent (shown below), so every cache of a resolver is.
\<close>

definition cacheConsistent :: "typeCache \<Rightarrow> bool" where
  "cacheConsistent cache \<longleftrightarrow>
     (\<forall>t info. cache t = Some info \<longrightarrow> info = fst (resolveType Map.empty t))"

text \<open>
  The \<open>TypeInfo\<close> of a primitive: a type, a format, and no flag set.
\<close>

definition primitiveInfo :: "string \<Rightarrow> string \<Rightarrow> TypeInfo" where
  "primitiveInfo openAPIType format =
     \<lparr>tiOpenAPIType = openAPIType, tiFormat = format, tiIsArray = False, tiItemsType = [],
      tiIsNullable = False, tiIsAnyValue = False\<rparr>"

text \<open>
  The four primitive OpenAPI types.
\<close>

definition isPrimitiveType :: "string \<Rightarrow> bool" where
  "isPrimitiveType s \<longleftrightarrow> s = ''boolean'' \<or> s = ''integer'' \<or> s = ''number'' \<or> s = ''string''"

text \<open>
  The number of classifications that a resolved field carries, out of: inline object,
  array, map, any value, primitive type.
\<close>

definition classCount :: "ResolvedField \<Rightarrow> nat" where
  "classCount f =
     length (filter id
       [rfInlineFields f \<noteq> None,
        rfIsArray (rfCore f),
        rfIsMap (rfCore f),
        rfIsAnyValue (rfCore f),
        isPrimitiveType (rfOpenAPIType (rfCore f))])"

text \<open>
  A field carries exactly one classification; and when it is marked as an unresolved
  struct reference, it is an array or has the primitive type \<open>string\<close>.
\<close>

definition classifiedOnce :: "ResolvedField \<Rightarrow> bool" where
  "classifiedOnce f \<longleftrightarrow>
     classCount f = 1 \<and>
     (rfIsUnresolvedStruct (rfCore f) \<longrightarrow>
        rfIsArray (rfCore f) \<or> rfOpenAPIType (rfCore f) = ''string'')"

text \<open>
  The same for the field and all the fields nested in it.
\<close>

fun allClassified :: "ResolvedField \<Rightarrow> bool" where
  "allClassified (ResolvedField core items mapValues inline) \<longleftrightarrow>
     classifiedOnce (ResolvedField core items mapValues inline) \<and>
     list_all allClassified (case items of None \<Rightarrow> [] | Some fs \<Rightarrow> fs) \<and>
     list_all allClassified (case mapValues of None \<Rightarrow> [] | Some fs \<Rightarrow> fs) \<and>
     list_all allClassified (case inline of None \<Rightarrow> [] | Some fs \<Rightarrow> fs)"

text \<open>
  The three shapes of a \<open>TypeInfo\<close>: array, any value, primitive.
\<close>

definition infoClass :: "TypeInfo \<Rightarrow> bool" where
  "infoClass i \<longleftrightarrow>
     (tiIsArray i \<and> tiOpenAPIType i = ''array'' \<and> \<not> tiIsAnyValue i) \<or>
     (\<not> tiIsArray i \<and> tiIsAnyValue i \<and> tiOpenAPIType i = []) \<or>
     (\<not> tiIsArray i \<and> \<not> tiIsAnyValue i \<and> isPrimitiveType (tiOpenAPIType i))"

text \<open>
  The resolved field as \<open>resolveField\<close> and \<open>resolveAnonymousStruct\<close> set it up
  before they classify the type.
\<close>

definition newFieldCore :: "string \<Rightarrow> string \<Rightarrow> GoType \<Rightarrow> string \<Rightarrow> FieldCore" where
  "newFieldCore fieldName fname ftype tag =
     emptyFieldCore\<lparr>rfName := fieldName, rfGoName := fname, rfGoType := typeString ftype,
                     rfRequired := \<not> Contains tag ''omitempty''\<rparr>"

text \<open>
  The chain of \<open>if ... else if ...\<close> that \<open>resolveField\<close> and the loop of
  \<open>resolveAnonymousStruct\<close> share, as one function.
\<close>

definition classifyFieldType ::
  "typeCache \<Rightarrow> GoType \<Rightarrow> FieldCore \<Rightarrow> (string \<Rightarrow> bool) \<Rightarrow> ResolvedField \<times> typeCache" where
  "classifyFieldType cache ftype resolved schemaNames =
     (case resolveAnonymousStruct cache ftype schemaNames of
        (Some inlineFields, cache) \<Rightarrow>
          (ResolvedField (resolved\<lparr>rfOpenAPIType := ''object''\<rparr>)
             None None (Some inlineFields), cache)
      | (None, cache) \<Rightarrow>
          (case resolveSliceOfAnonymousStruct cache ftype schemaNames of
             (Some itemFields, cache) \<Rightarrow>
               (ResolvedField
                  (resolved\<lparr>rfIsArray := True, rfOpenAPIType := ''array'',
                              rfItemsType := ''object''\<rparr>)
                  (Some itemFields) None None, cache)
           | (None, cache) \<Rightarrow>
               (case resolveMapOfAnonymousStruct cache ftype schemaNames of
                  (Some mapValueFields, cache) \<Rightarrow>
                    (ResolvedField
                       (resolved\<lparr>rfIsMap := True, rfOpenAPIType := ''object''\<rparr>)
                       None (Some mapValueFields) None, cache)
                | (None, cache) \<Rightarrow>
                    (case resolveType cache ftype of
                       (typeInfo, cache) \<Rightarrow>
                         (ResolvedField
                            (withTypeInfo
                               (checkUnresolvedStruct ftype resolved schemaNames)
                               typeInfo)
                            None None None, cache)))))"

text \<open>
  What holds of a result of the three functions for anonymous structs.
\<close>

definition okRes :: "ResolvedField list option \<times> typeCache \<Rightarrow> bool" where
  "okRes r \<longleftrightarrow>
     cacheConsistent (snd r) \<and> (\<forall>fs. fst r = Some fs \<longrightarrow> list_all allClassified fs)"

text \<open>
  No classification has been written into the field yet.
\<close>

definition freshCore :: "FieldCore \<Rightarrow> bool" where
  "freshCore core \<longleftrightarrow>
     \<not> rfIsArray core \<and> \<not> rfIsMap core \<and> \<not> rfIsAnyValue core \<and>
     \<not> rfIsUnresolvedStruct core \<and> rfOpenAPIType core = []"

text \<open>
  The name part of a tag value: the text before the first comma.
\<close>

definition tagNamePart :: "string \<Rightarrow> string" where
  "tagNamePart v = takeWhile (\<lambda>c. c \<noteq> CHR '','') v"

text \<open>
  The struct tags and field names on which \<^const>\<open>StructTagLookup\<close> and
  \<^const>\<open>Exported\<close> are the library functions: a tag of ASCII bytes none of which is a
  backslash, and a name that is empty or starts with an ASCII byte.
\<close>

definition plainTag :: "string \<Rightarrow> bool" where
  "plainTag tag \<longleftrightarrow> list_all (\<lambda>c. (of_char c :: nat) < 128 \<and> c \<noteq> CHR 0x5C) tag"

definition asciiInitial :: "string \<Rightarrow> bool" where
  "asciiInitial name \<longleftrightarrow> (case name of [] \<Rightarrow> True | c # _ \<Rightarrow> (of_char c :: nat) < 128)"

text \<open>
  A struct tag with one key, \<open>key:"value"\<close>; used to write examples.
\<close>

definition keyValueTag :: "string \<Rightarrow> string \<Rightarrow> string" where
  "keyValueTag key v = key @ '':'' @ [CHR 0x22] @ v @ [CHR 0x22]"

text \<open>
  A field is required when its tag does not contain \<open>omitempty\<close>.
\<close>

definition requiredByTag :: "string \<Rightarrow> bool" where
  "requiredByTag tag \<longleftrightarrow> \<not> Contains tag ''omitempty''"

text \<open>
  The fields of an anonymous struct that \<open>resolveAnonymousStruct\<close> does not skip.
\<close>

definition anonFieldKept :: "string \<times> GoType \<times> string \<Rightarrow> bool" where
  "anonFieldKept fld =
     (case fld of (fname, ftype, tag) \<Rightarrow>
        Exported fname \<and> resolveFieldNameFromTag tag fname \<noteq> [])"

text \<open>
  The fields of an inline declaration that \<open>resolveInlineStructFields\<close> does not skip.
\<close>

definition inlineFieldKept :: "string \<Rightarrow> AstField \<Rightarrow> bool" where
  "inlineFieldKept tagType astField \<longleftrightarrow>
     afNames astField \<noteq> [] \<and>
     (tagType \<in> {''path'', ''query'', ''header'', ''cookie''} \<or>
      resolveFieldNameFromTag (astFieldTag astField) (hd (afNames astField)) \<noteq> [])"

text \<open>
  The \<open>switch tagType\<close> of \<open>resolveInlineStructFields\<close>; \<^const>\<open>None\<close> is
  \<open>shouldSkip\<close>.
\<close>

definition inlineResolvedName :: "string \<Rightarrow> string \<Rightarrow> string \<Rightarrow> string option" where
  "inlineResolvedName tagType tag fieldName =
     (if tagType = ''path'' then Some (extractTagName tag ''path'')
      else if tagType = ''query'' then Some (extractTagName tag ''query'')
      else if tagType = ''header'' then Some (extractTagName tag ''header'')
      else if tagType = ''cookie'' then Some (extractTagName tag ''cookie'')
      else
        let resolvedName = resolveFieldNameFromTag tag fieldName in
        if resolvedName = [] then None else Some resolvedName)"

text \<open>
  The type classification inside the loop of \<open>resolveInlineStructFields\<close>, as one
  function.
\<close>

definition classifyInlineType ::
  "typeCache \<Rightarrow> GoType option \<Rightarrow> FieldCore \<Rightarrow> (string \<Rightarrow> bool) option
     \<Rightarrow> ResolvedField \<times> typeCache" where
  "classifyInlineType cache fieldType resolved schemaNames =
     (case fieldType of
        None \<Rightarrow>
          (ResolvedField
             (resolved\<lparr>rfGoType := ''string'', rfOpenAPIType := ''string''\<rparr>)
             None None None, cache)
      | Some fieldType \<Rightarrow>
          let resolved = resolved\<lparr>rfGoType := typeString fieldType\<rparr> in
          (case
             (case schemaNames of
                None \<Rightarrow> (ResolvedField resolved None None None, cache)
              | Some names \<Rightarrow>
                  (case resolveAnonymousStruct cache fieldType names of
                     (Some inlineFields, cache) \<Rightarrow>
                       (ResolvedField (resolved\<lparr>rfOpenAPIType := ''object''\<rparr>)
                          None None (Some inlineFields), cache)
                   | (None, cache) \<Rightarrow>
                       (case resolveSliceOfAnonymousStruct cache fieldType names of
                          (Some itemFields, cache) \<Rightarrow>
                            (ResolvedField
                               (resolved\<lparr>rfIsArray := True,
                                           rfOpenAPIType := ''array'',
                                           rfItemsType := ''object''\<rparr>)
                               (Some itemFields) None None, cache)
                        | (None, cache) \<Rightarrow>
                            (case resolveMapOfAnonymousStruct cache fieldType names of
                               (Some mapValueFields, cache) \<Rightarrow>
                                 (ResolvedField
                                    (resolved\<lparr>rfIsMap := True,
                                                rfOpenAPIType := ''object''\<rparr>)
                                    None (Some mapValueFields) None, cache)
                             | (None, cache) \<Rightarrow>
                                 (ResolvedField resolved None None None, cache)))))
           of (ResolvedField core items mapValues inline, cache) \<Rightarrow>
             if rfOpenAPIType core = [] then
               (case resolveType cache fieldType of
                  (typeInfo, cache) \<Rightarrow>
                    (ResolvedField (withTypeInfo core typeInfo)
                       items mapValues inline, cache))
             else (ResolvedField core items mapValues inline, cache)))"

text \<open>
  An annotation that claims the field is required; used in an example.
\<close>

definition exampleAnnotation :: Field where
  "exampleAnnotation =
     \<lparr>pfName = ''age'', pfGoName = ''Age'', pfGoType = ''*int'', pfRequired = True,
      pfNullable = False, pfDescription = ''Age in years'', pfFormat = [], pfExample = ''42'',
      pfEnum = [], pfDefault = [], pfMinimum = None, pfMaximum = None, pfMinLength = None,
      pfMaxLength = None, pfMinItems = None, pfMaxItems = None, pfUniqueItems = False,
      pfPattern = [], pfDeprecated = False\<rparr>"

declare typeInfoOf.simps [simp del]

declare resolveType.simps [simp del]

declare checkUnresolvedStruct.simps [simp del]

declare resolveAnonymousStruct.simps [simp del]

declare resolveAnonFields.simps [simp del]

declare resolveSliceOfAnonymousStruct.simps [simp del]

declare resolveMapOfAnonymousStruct.simps [simp del]

section \<open>Properties of the escape utilities\<close>

lemma Unescape_Nil: "UnescapeValue [] = []"
  by (simp add: UnescapeValue_def)

lemma Unescape_plain:
  "c \<noteq> CHR 0x5C \<Longrightarrow> c \<noteq> CHR 0x00 \<Longrightarrow> UnescapeValue (c # s) = c # UnescapeValue s"
  by (simp add: UnescapeValue_def Let_def backslashPlaceholder_def HasPrefix_def)

lemma Unescape_backslash:
  "UnescapeValue (CHR 0x5C # CHR 0x5C # s) = CHR 0x5C # UnescapeValue s"
  by (simp add: UnescapeValue_def Let_def backslashPlaceholder_def HasPrefix_def)

lemma Unescape_open:
  "UnescapeValue (CHR 0x5C # CHR ''{'' # s) = CHR ''{'' # UnescapeValue s"
  by (simp add: UnescapeValue_def Let_def backslashPlaceholder_def HasPrefix_def)

lemma Unescape_close:
  "UnescapeValue (CHR 0x5C # CHR ''}'' # s) = CHR ''}'' # UnescapeValue s"
  by (simp add: UnescapeValue_def Let_def backslashPlaceholder_def HasPrefix_def)

lemma Unescape_at:
  "UnescapeValue (CHR 0x5C # CHR ''@'' # s) = CHR ''@'' # UnescapeValue s"
  by (simp add: UnescapeValue_def Let_def backslashPlaceholder_def HasPrefix_def)

lemma Unescape_lone:
  "\<not> isEscapable n \<Longrightarrow> n \<noteq> CHR 0x00 \<Longrightarrow>
   UnescapeValue (CHR 0x5C # n # s) = CHR 0x5C # n # UnescapeValue s"
  by (simp add: UnescapeValue_def Let_def backslashPlaceholder_def HasPrefix_def isEscapable_def)

lemma Unescape_last: "UnescapeValue [CHR 0x5C] = [CHR 0x5C]"
  by (simp add: UnescapeValue_def Let_def backslashPlaceholder_def HasPrefix_def)

lemma UnescapeValue_single_pass:
  "CHR 0x00 \<notin> set s \<Longrightarrow> UnescapeValue s = unescapeOnce s"
proof (induction s rule: unescapeOnce.induct)
  case (1 c n rest)
  show ?case
  proof (cases "c = CHR 0x5C \<and> isEscapable n")
    case True
    then have ih: "UnescapeValue rest = unescapeOnce rest"
      using 1 by simp
    from True have "n = CHR ''{'' \<or> n = CHR ''}'' \<or> n = CHR ''@'' \<or> n = CHR 0x5C"
      by (simp add: isEscapable_def)
    then show ?thesis
      using True ih
      by (elim disjE) (simp_all add: Unescape_open Unescape_close Unescape_at Unescape_backslash)
  next
    case False
    then have ih: "UnescapeValue (n # rest) = unescapeOnce (n # rest)"
      using 1 by simp
    show ?thesis
    proof (cases "c = CHR 0x5C")
      case True
      with False have ne: "\<not> isEscapable n" by simp
      then have nb: "n \<noteq> CHR 0x5C" by (auto simp: isEscapable_def)
      have n0: "n \<noteq> CHR 0x00" using 1(3) by auto
      have "UnescapeValue (n # rest) = n # UnescapeValue rest"
        using nb n0 by (rule Unescape_plain)
      then show ?thesis
        using True ne n0 ih False by (simp add: Unescape_lone)
    next
      case c: False
      have "c \<noteq> CHR 0x00" using 1(3) by auto
      then show ?thesis using c ih False by (simp add: Unescape_plain)
    qed
  qed
next
  case (2 c)
  then show ?case
    by (cases "c = CHR 0x5C") (simp_all add: Unescape_last Unescape_plain Unescape_Nil)
next
  case 3
  then show ?case by (simp add: Unescape_Nil)
qed

text \<open>
  Claim C4.  \<^const>\<open>UnescapeValue\<close> is the five replacements in the order of the source
  (backslash pairs to the placeholder, the three other escapes, the placeholder to a
  backslash).  On every value without a NUL byte (comment text of a Go source file has
  none: the package loader rejects it) the result is the single left-to-right decoding,
  so every escape sequence is decoded exactly once; and two backslashes followed by an
  opening brace decode to one backslash followed by the brace.
\<close>

theorem UnescapeValue_decodes_once:
  "(CHR 0x00 \<notin> set s \<longrightarrow> UnescapeValue s = unescapeOnce s) \<and>
   UnescapeValue [CHR 0x5C, CHR 0x5C, CHR ''{''] = [CHR 0x5C, CHR ''{'']"
proof
  show "CHR 0x00 \<notin> set s \<longrightarrow> UnescapeValue s = unescapeOnce s"
    using UnescapeValue_single_pass by blast
  show "UnescapeValue [CHR 0x5C, CHR 0x5C, CHR ''{''] = [CHR 0x5C, CHR ''{'']"
    by (simp add: Unescape_backslash Unescape_plain Unescape_Nil)
qed

theorem UnescapeValue_decodes_once_witness:
  "CHR 0x00 \<notin> set [CHR ''a'', CHR 0x5C, CHR 0x5C, CHR 0x5C, CHR ''{'', CHR 0x5C, CHR ''n''] \<and>
   UnescapeValue [CHR ''a'', CHR 0x5C, CHR 0x5C, CHR 0x5C, CHR ''{'', CHR 0x5C, CHR ''n'']
     = [CHR ''a'', CHR 0x5C, CHR ''{'', CHR 0x5C, CHR ''n'']"
proof -
  have h: "CHR 0x00 \<notin> set [CHR ''a'', CHR 0x5C, CHR 0x5C, CHR 0x5C, CHR ''{'', CHR 0x5C, CHR ''n'']"
    by simp
  show ?thesis
    using h UnescapeValue_decodes_once
      [of "[CHR ''a'', CHR 0x5C, CHR 0x5C, CHR 0x5C, CHR ''{'', CHR 0x5C, CHR ''n'']"]
    by (simp add: isEscapable_def)
qed

section \<open>Properties of the block opener\<close>

lemma openerAt_Cons:
  "openerAt (c # s) p \<longleftrightarrow>
     (\<exists>k. p = Suc k \<and>
        ((k = 0 \<and> (c = CHR '' '' \<or> c = CHR 0x09) \<and> s \<noteq> [] \<and> hd s = CHR ''{'') \<or> openerAt s k))"
proof (cases p)
  case 0
  then show ?thesis by (simp add: openerAt_def)
next
  case (Suc k)
  show ?thesis
  proof (cases k)
    case 0
    with Suc show ?thesis by (cases s) (auto simp: openerAt_def)
  next
    case (Suc j)
    with \<open>p = Suc k\<close> show ?thesis by (auto simp: openerAt_def)
  qed
qed

lemma findOpenerFrom_Some:
  "findOpenerFrom i s = Some p \<Longrightarrow>
     \<exists>k. p = i + k \<and> openerAt s k \<and> (\<forall>q<k. \<not> openerAt s q)"
proof (induction i s arbitrary: p rule: findOpenerFrom.induct)
  case (1 i c n rest)
  show ?case
  proof (cases "c = CHR 0x5C \<and> isEscapable n")
    case True
    have eq: "findOpenerFrom (i + 2) rest = Some p"
      using "1.prems" True by simp
    obtain k where k: "p = i + 2 + k" "openerAt rest k" "\<forall>q<k. \<not> openerAt rest q"
      using "1.IH"(1)[OF True eq] by blast
    from True have nb: "n \<noteq> CHR '' ''" "n \<noteq> CHR 0x09" "c \<noteq> CHR '' ''" "c \<noteq> CHR 0x09"
      by (auto simp: isEscapable_def)
    have shift: "openerAt (c # n # rest) q \<longleftrightarrow> (\<exists>j. q = Suc (Suc j) \<and> openerAt rest j)" for q
      using nb by (auto simp: openerAt_Cons)
    have a: "openerAt (c # n # rest) (Suc (Suc k))" using k(2) shift by blast
    have b: "\<forall>q<Suc (Suc k). \<not> openerAt (c # n # rest) q"
    proof (intro allI impI notI)
      fix q assume q: "q < Suc (Suc k)" "openerAt (c # n # rest) q"
      then obtain j where "q = Suc (Suc j)" "openerAt rest j" using shift by blast
      with q(1) k(3) show False by simp
    qed
    show ?thesis using k(1) a b by (intro exI[of _ "Suc (Suc k)"]) simp
  next
    case False
    show ?thesis
    proof (cases "(c = CHR '' '' \<or> c = CHR 0x09) \<and> n = CHR ''{''")
      case True
      have "c \<noteq> CHR 0x5C" using True by auto
      then have "p = i + 1" using "1.prems" True by auto
      moreover have "openerAt (c # n # rest) 1" using True by (auto simp: openerAt_def)
      moreover have "\<forall>q<1. \<not> openerAt (c # n # rest) q" by (simp add: openerAt_def)
      ultimately show ?thesis by (intro exI[of _ 1]) simp
    next
      case nohit: False
      have eq: "findOpenerFrom (i + 1) (n # rest) = Some p"
        using "1.prems" False nohit by simp
      obtain k where k: "p = i + 1 + k" "openerAt (n # rest) k" "\<forall>q<k. \<not> openerAt (n # rest) q"
        using "1.IH"(2)[OF False nohit eq] by blast
      have shift: "openerAt (c # n # rest) q \<longleftrightarrow> (\<exists>j. q = Suc j \<and> openerAt (n # rest) j)" for q
        using nohit by (subst openerAt_Cons) auto
      have a: "openerAt (c # n # rest) (Suc k)" using k(2) shift by blast
      have b: "\<forall>q<Suc k. \<not> openerAt (c # n # rest) q"
      proof (intro allI impI notI)
        fix q assume q: "q < Suc k" "openerAt (c # n # rest) q"
        then obtain j where "q = Suc j" "openerAt (n # rest) j" using shift by blast
        with q(1) k(3) show False by simp
      qed
      show ?thesis using k(1) a b by (intro exI[of _ "Suc k"]) simp
    qed
  qed
next
  case (2 i c)
  then show ?case by simp
next
  case (3 i)
  then show ?case by simp
qed

lemma findOpenerFrom_None:
  "findOpenerFrom i s = None \<Longrightarrow> \<not> openerAt s k"
proof (induction i s arbitrary: k rule: findOpenerFrom.induct)
  case (1 i c n rest)
  show ?case
  proof (cases "c = CHR 0x5C \<and> isEscapable n")
    case True
    have eq: "findOpenerFrom (i + 2) rest = None"
      using "1.prems" True by simp
    have ih: "\<not> openerAt rest j" for j
      using "1.IH"(1)[OF True eq] .
    from True have nb: "n \<noteq> CHR '' ''" "n \<noteq> CHR 0x09" "c \<noteq> CHR '' ''" "c \<noteq> CHR 0x09"
      by (auto simp: isEscapable_def)
    show ?thesis using nb ih by (auto simp: openerAt_Cons)
  next
    case False
    have nohit: "\<not> ((c = CHR '' '' \<or> c = CHR 0x09) \<and> n = CHR ''{'')"
      using "1.prems" False by (auto split: if_splits)
    have eq: "findOpenerFrom (i + 1) (n # rest) = None"
      using "1.prems" False nohit by simp
    have ih: "\<not> openerAt (n # rest) j" for j
      using "1.IH"(2)[OF False nohit eq] .
    show ?thesis using nohit ih by (subst openerAt_Cons) auto
  qed
next
  case (2 i c)
  then show ?case by (auto simp: openerAt_def)
next
  case (3 i)
  then show ?case by (simp add: openerAt_def)
qed

lemma findBlockOpener_first:
  "findBlockOpener line = Some p \<longleftrightarrow> openerAt line p \<and> (\<forall>q<p. \<not> openerAt line q)"
proof
  assume "findBlockOpener line = Some p"
  then show "openerAt line p \<and> (\<forall>q<p. \<not> openerAt line q)"
    using findOpenerFrom_Some[of 0 line p] by (auto simp: findBlockOpener_def)
next
  assume r: "openerAt line p \<and> (\<forall>q<p. \<not> openerAt line q)"
  show "findBlockOpener line = Some p"
  proof (cases "findBlockOpener line")
    case None
    then show ?thesis using findOpenerFrom_None[of 0 line p] r by (simp add: findBlockOpener_def)
  next
    case (Some p')
    then have p': "openerAt line p'" "\<forall>q<p'. \<not> openerAt line q"
      using findOpenerFrom_Some[of 0 line p'] by (auto simp: findBlockOpener_def)
    with r have "p' = p" by (meson linorder_neqE_nat)
    with Some show ?thesis by simp
  qed
qed

lemma findBlockOpener_none:
  "findBlockOpener line = None \<longleftrightarrow> (\<forall>p. \<not> openerAt line p)"
proof
  assume "findBlockOpener line = None"
  then show "\<forall>p. \<not> openerAt line p"
    using findOpenerFrom_None[of 0 line] by (simp add: findBlockOpener_def)
next
  assume a: "\<forall>p. \<not> openerAt line p"
  show "findBlockOpener line = None"
  proof (cases "findBlockOpener line")
    case (Some p)
    then show ?thesis using findBlockOpener_first[of line p] a by simp
  qed simp
qed

text \<open>
  Claim C3.  \<^const>\<open>findBlockOpener\<close> returns the first position holding a \<open>{\<close> whose
  left neighbour is a space or a tab, and nothing when there is no such position;
  stepping over escape sequences never hides one.  A \<open>{\<close> without white space before
  it is therefore never the block delimiter.  For the endpoint line with two path
  parameters the opener is the final brace (offset 49) and the metadata keeps the path
  braces.
\<close>

theorem findBlockOpener_path_braces:
  "(findBlockOpener line = Some p \<longleftrightarrow> openerAt line p \<and> (\<forall>q<p. \<not> openerAt line q)) \<and>
   (findBlockOpener line = None \<longleftrightarrow> (\<forall>p. \<not> openerAt line p)) \<and>
   findBlockOpener ''@endpoint GET /orgs/{orgId}/projects/{projectId} {'' = Some 49 \<and>
   ExtractMetadata ''@endpoint GET /orgs/{orgId}/projects/{projectId} {'' ''@endpoint''
     = ''GET /orgs/{orgId}/projects/{projectId}''"
proof (intro conjI)
  show "findBlockOpener line = Some p \<longleftrightarrow> openerAt line p \<and> (\<forall>q<p. \<not> openerAt line q)"
    by (rule findBlockOpener_first)
  show "findBlockOpener line = None \<longleftrightarrow> (\<forall>p. \<not> openerAt line p)"
    by (rule findBlockOpener_none)
  show "findBlockOpener ''@endpoint GET /orgs/{orgId}/projects/{projectId} {'' = Some 49"
    by (simp add: findBlockOpener_def isEscapable_def)
  show "ExtractMetadata ''@endpoint GET /orgs/{orgId}/projects/{projectId} {'' ''@endpoint''
     = ''GET /orgs/{orgId}/projects/{projectId}''"
    by (simp add: ExtractMetadata_def TrimPrefix_def HasPrefix_def findBlockOpener_def
        isEscapable_def TrimSpace_def isSpace_def)
qed

theorem findBlockOpener_path_braces_witness:
  "findBlockOpener ''GET /u/{id} {'' = Some 12 \<and> openerAt ''GET /u/{id} {'' 12 \<and>
   \<not> openerAt ''GET /u/{id} {'' 7 \<and> findBlockOpener ''/u/{id}'' = None \<and>
   \<not> openerAt ''/u/{id}'' 3"
proof -
  have a: "findBlockOpener ''GET /u/{id} {'' = Some 12"
    by (simp add: findBlockOpener_def isEscapable_def)
  have b: "findBlockOpener ''/u/{id}'' = None"
    by (simp add: findBlockOpener_def isEscapable_def)
  have c: "\<forall>q<12. \<not> openerAt ''GET /u/{id} {'' q"
    using a findBlockOpener_path_braces [of "''GET /u/{id} {''" 12] by blast
  show ?thesis
    using a b c findBlockOpener_path_braces [of "''GET /u/{id} {''" 12]
      findBlockOpener_path_braces [of "''/u/{id}''" 0]
    by simp
qed

section \<open>Properties of type resolution\<close>

lemma resolveType_typeInfoOf:
  "(\<And>t' i. cache t' = Some i \<Longrightarrow> i = typeInfoOf t') \<Longrightarrow>
   fst (resolveType cache t) = typeInfoOf t"
proof (induction cache t rule: resolveType.induct)
  case (1 cache t)
  show ?case
  proof (cases "cache t")
    case (Some cached)
    then show ?thesis using "1.prems" by (subst resolveType.simps) simp
  next
    case None
    show ?thesis
    proof (cases "unwrapPointer t")
      case (Slice elem)
      have "fst (resolveType cache elem) = typeInfoOf elem"
        using "1.IH"(1)[OF None refl refl Slice] "1.prems" by blast
      then show ?thesis using None Slice
        by (subst resolveType.simps, subst typeInfoOf.simps) (auto simp: Let_def split: prod.splits)
    next
      case (Alias n rhs)
      have "fst (resolveType cache rhs) = typeInfoOf rhs"
        using "1.IH"(3)[OF None refl refl Alias] "1.prems" by blast
      then show ?thesis using None Alias
        by (subst resolveType.simps, subst typeInfoOf.simps) (simp add: Let_def)
    next
      case (Named pkg name u)
      show ?thesis
      proof (cases "resolveSpecialType (case pkg of Some path \<Rightarrow> path | None \<Rightarrow> []) name")
        case sp: None
        have "fst (resolveType cache u) = typeInfoOf u"
          using "1.IH"(2)[OF None refl refl Named refl sp] "1.prems" by blast
        then show ?thesis using None Named sp
          by (subst resolveType.simps, subst typeInfoOf.simps) (simp add: Let_def)
      next
        case (Some a)
        then show ?thesis using None Named
          by (subst resolveType.simps, subst typeInfoOf.simps) (simp add: Let_def split: prod.splits)
      qed
    qed (use None in \<open>subst resolveType.simps, subst typeInfoOf.simps, simp add: Let_def\<close>)+
  qed
qed

lemma cacheConsistent_iff:
  "cacheConsistent cache \<longleftrightarrow> (\<forall>t info. cache t = Some info \<longrightarrow> info = typeInfoOf t)"
proof -
  have "fst (resolveType Map.empty t) = typeInfoOf t" for t
    by (rule resolveType_typeInfoOf) simp
  then show ?thesis by (simp add: cacheConsistent_def)
qed

lemma resolveType_fst:
  "cacheConsistent cache \<Longrightarrow> fst (resolveType cache t) = typeInfoOf t"
  by (rule resolveType_typeInfoOf) (simp add: cacheConsistent_iff)

lemma resolveType_consistent:
  "cacheConsistent cache \<Longrightarrow> cacheConsistent (snd (resolveType cache t))"
proof (induction cache t rule: resolveType.induct)
  case (1 cache t)
  note cc = "1.prems"
  have val: "fst (resolveType cache t) = typeInfoOf t" using cc by (rule resolveType_fst)
  show ?case
  proof (cases "cache t")
    case (Some cached)
    then show ?thesis using cc by (subst resolveType.simps) simp
  next
    case None
    show ?thesis
    proof (cases "unwrapPointer t")
      case (Slice elem)
      have ih: "cacheConsistent (snd (resolveType cache elem))"
        using "1.IH"(1)[OF None refl refl Slice cc] .
      have "snd (resolveType cache t) = (snd (resolveType cache elem))(t \<mapsto> fst (resolveType cache t))"
        using None Slice by (subst (1 3) resolveType.simps) (simp add: Let_def split: prod.splits)
      then show ?thesis using ih val by (simp add: cacheConsistent_iff)
    next
      case (Alias n rhs)
      have ih: "cacheConsistent (snd (resolveType cache rhs))"
        using "1.IH"(3)[OF None refl refl Alias cc] .
      have "snd (resolveType cache t) = snd (resolveType cache rhs)"
        using None Alias by (subst resolveType.simps) (simp add: Let_def)
      then show ?thesis using ih by simp
    next
      case (Named pkg name u)
      show ?thesis
      proof (cases "resolveSpecialType (case pkg of Some path \<Rightarrow> path | None \<Rightarrow> []) name")
        case sp: None
        have ih: "cacheConsistent (snd (resolveType cache u))"
          using "1.IH"(2)[OF None refl refl Named refl sp cc] .
        have "snd (resolveType cache t) = snd (resolveType cache u)"
          using None Named sp by (subst resolveType.simps) (simp add: Let_def)
        then show ?thesis using ih by simp
      next
        case (Some a)
        have "snd (resolveType cache t) = cache(t \<mapsto> fst (resolveType cache t))"
          using None Named Some by (subst (1 2) resolveType.simps) (simp add: Let_def split: prod.splits)
        then show ?thesis using cc val by (simp add: cacheConsistent_iff)
      qed
    next
      case (Basic k)
      have "snd (resolveType cache t) = cache(t \<mapsto> fst (resolveType cache t))"
        using None Basic by (subst (1 2) resolveType.simps) (simp add: Let_def)
      then show ?thesis using cc val by (simp add: cacheConsistent_iff)
    next
      case (Pointer x)
      have "snd (resolveType cache t) = cache(t \<mapsto> fst (resolveType cache t))"
        using None Pointer by (subst (1 2) resolveType.simps) (simp add: Let_def)
      then show ?thesis using cc val by (simp add: cacheConsistent_iff)
    next
      case (Array n x)
      have "snd (resolveType cache t) = cache(t \<mapsto> fst (resolveType cache t))"
        using None Array by (subst (1 2) resolveType.simps) (simp add: Let_def)
      then show ?thesis using cc val by (simp add: cacheConsistent_iff)
    next
      case (Map k v)
      have "snd (resolveType cache t) = cache(t \<mapsto> fst (resolveType cache t))"
        using None Map by (subst (1 2) resolveType.simps) (simp add: Let_def)
      then show ?thesis using cc val by (simp add: cacheConsistent_iff)
    next
      case (Struct fs)
      have "snd (resolveType cache t) = cache(t \<mapsto> fst (resolveType cache t))"
        using None Struct by (subst (1 2) resolveType.simps) (simp add: Let_def)
      then show ?thesis using cc val by (simp add: cacheConsistent_iff)
    next
      case Interface
      have "snd (resolveType cache t) = cache(t \<mapsto> fst (resolveType cache t))"
        using None Interface by (subst (1 2) resolveType.simps) (simp add: Let_def)
      then show ?thesis using cc val by (simp add: cacheConsistent_iff)
    next
      case (Chan x)
      have "snd (resolveType cache t) = cache(t \<mapsto> fst (resolveType cache t))"
        using None Chan by (subst (1 2) resolveType.simps) (simp add: Let_def)
      then show ?thesis using cc val by (simp add: cacheConsistent_iff)
    next
      case Signature
      have "snd (resolveType cache t) = cache(t \<mapsto> fst (resolveType cache t))"
        using None Signature by (subst (1 2) resolveType.simps) (simp add: Let_def)
      then show ?thesis using cc val by (simp add: cacheConsistent_iff)
    next
      case (TypeParam x)
      have "snd (resolveType cache t) = cache(t \<mapsto> fst (resolveType cache t))"
        using None TypeParam by (subst (1 2) resolveType.simps) (simp add: Let_def)
      then show ?thesis using cc val by (simp add: cacheConsistent_iff)
    qed
  qed
qed

lemma resolveSpecialType_string:
  "resolveSpecialType p n = Some (a, b) \<Longrightarrow> a = ''string''"
  by (auto simp: resolveSpecialType_def split: if_splits)

lemma basicTypeInfo_class:
  "isPrimitiveType (tiOpenAPIType (basicTypeInfo k info)) \<and>
   tiIsArray (basicTypeInfo k info) = tiIsArray info \<and>
   tiIsAnyValue (basicTypeInfo k info) = tiIsAnyValue info"
  by (cases k) (simp_all add: isPrimitiveType_def)

lemma typeInfoOf_class: "infoClass (typeInfoOf t)"
proof (induction t rule: typeInfoOf.induct)
  case (1 t)
  show ?case
  proof (cases "unwrapPointer t")
    case (Named pkg name u)
    show ?thesis
    proof (cases "resolveSpecialType (case pkg of Some path \<Rightarrow> path | None \<Rightarrow> []) name")
      case None
      then show ?thesis using "1.IH"(2)[OF refl refl Named None] Named
        by (subst typeInfoOf.simps) (simp add: Let_def)
    next
      case (Some a)
      obtain x y where a: "a = (x, y)" by (cases a)
      have "x = ''string''" using Some a resolveSpecialType_string by blast
      then show ?thesis using Named Some a
        by (subst typeInfoOf.simps)
           (simp add: Let_def infoClass_def isPrimitiveType_def emptyTypeInfo_def split: GoType.splits)
    qed
  next
    case (Alias n rhs)
    then show ?thesis using "1.IH"(3)[OF refl refl Alias]
      by (subst typeInfoOf.simps) (simp add: Let_def)
  next
    case (Basic k)
    then show ?thesis using basicTypeInfo_class[of k]
      by (subst typeInfoOf.simps)
         (simp add: Let_def infoClass_def emptyTypeInfo_def split: GoType.splits)
  qed (subst typeInfoOf.simps,
       simp add: Let_def infoClass_def isPrimitiveType_def emptyTypeInfo_def split: GoType.splits)+
qed

lemma typeInfoOf_Slice:
  "unwrapPointer t = Slice e \<Longrightarrow> tiIsArray (typeInfoOf t)"
  by (subst typeInfoOf.simps) (simp add: Let_def)

lemma typeInfoOf_Map:
  "unwrapPointer t = Map k v \<Longrightarrow> tiOpenAPIType (typeInfoOf t) = ''string''"
  by (subst typeInfoOf.simps) (simp add: Let_def)

lemma typeInfoOf_Named:
  "unwrapPointer t = Named pkg name u \<Longrightarrow>
   \<not> (pkg \<noteq> None \<and> isSpecialType (the pkg) name) \<Longrightarrow>
   typeInfoOf t = typeInfoOf u"
proof -
  assume u: "unwrapPointer t = Named pkg name u"
    and ns: "\<not> (pkg \<noteq> None \<and> isSpecialType (the pkg) name)"
  have "resolveSpecialType (case pkg of Some path \<Rightarrow> path | None \<Rightarrow> []) name = None"
  proof (cases pkg)
    case None
    then show ?thesis by (simp add: resolveSpecialType_def)
  next
    case (Some p)
    then show ?thesis using ns by (cases "resolveSpecialType p name") (auto simp: isSpecialType_def)
  qed
  then show ?thesis using u by (subst typeInfoOf.simps) (simp add: Let_def)
qed

lemma typeInfoOf_Struct:
  "tiOpenAPIType (typeInfoOf (Struct fs)) = ''string''"
  by (subst typeInfoOf.simps) (simp add: Let_def)

lemma checkUnresolved_cases:
  "checkUnresolvedStruct t r n = r \<or>
   (\<exists>name. checkUnresolvedStruct t r n =
              r\<lparr>rfIsUnresolvedStruct := True, rfUnresolvedTypeName := name\<rparr> \<and>
            (tiIsArray (typeInfoOf t) \<or> tiOpenAPIType (typeInfoOf t) = ''string''))"
proof (induction t r n rule: checkUnresolvedStruct.induct)
  case (1 t resolved schemaNames)
  show ?case
  proof (cases "unwrapPointer t")
    case (Slice e)
    have "checkUnresolvedStruct t resolved schemaNames = checkUnresolvedStruct e resolved schemaNames"
      using Slice by (subst checkUnresolvedStruct.simps) simp
    then show ?thesis using "1.IH"(1)[OF Slice] typeInfoOf_Slice[OF Slice] by auto
  next
    case (Map k v)
    have "checkUnresolvedStruct t resolved schemaNames = checkUnresolvedStruct v resolved schemaNames"
      using Map by (subst checkUnresolvedStruct.simps) simp
    then show ?thesis using "1.IH"(2)[OF Map] typeInfoOf_Map[OF Map] by auto
  next
    case (Named pkg name u)
    show ?thesis
    proof (cases "pkg \<noteq> None \<and> isSpecialType (the pkg) name")
      case True
      then show ?thesis using Named by (subst checkUnresolvedStruct.simps) simp
    next
      case False
      note eq = typeInfoOf_Named[OF Named False]
      show ?thesis
      proof (cases "\<exists>fs. u = Struct fs")
        case True
        then obtain fs where fs: "u = Struct fs" by blast
        have "checkUnresolvedStruct t resolved schemaNames =
              (if \<not> schemaNames name
               then resolved\<lparr>rfIsUnresolvedStruct := True, rfUnresolvedTypeName := name\<rparr>
               else resolved)"
          using Named False fs by (subst checkUnresolvedStruct.simps) (cases pkg; simp)
        then show ?thesis using eq fs typeInfoOf_Struct[of fs] by auto
      next
        case ns: False
        have ih: "checkUnresolvedStruct u resolved schemaNames = resolved \<or>
          (\<exists>name. checkUnresolvedStruct u resolved schemaNames =
              resolved\<lparr>rfIsUnresolvedStruct := True, rfUnresolvedTypeName := name\<rparr> \<and>
            (tiIsArray (typeInfoOf u) \<or> tiOpenAPIType (typeInfoOf u) = ''string''))"
          using ns by (cases u) (use "1.IH"(3-)[OF Named False] in auto)
        have "checkUnresolvedStruct t resolved schemaNames = checkUnresolvedStruct u resolved schemaNames"
          using Named False ns by (subst checkUnresolvedStruct.simps) (cases u; auto)
        then show ?thesis using ih eq by simp
      qed
    qed
  qed (subst checkUnresolvedStruct.simps, simp)+
qed

lemma resolveAnonFields_Cons:
  "resolveAnonFields cache ((fname, ftype, tag) # rest) n =
     (if \<not> Exported fname \<or> resolveFieldNameFromTag tag fname = []
      then resolveAnonFields cache rest n
      else
        (case classifyFieldType cache ftype
                (newFieldCore (resolveFieldNameFromTag tag fname) fname ftype tag) n of
           (field, cache') \<Rightarrow>
             (case resolveAnonFields cache' rest n of
                (out, cache'') \<Rightarrow> (field # out, cache''))))"
  by (subst resolveAnonFields.simps)
     (simp add: Let_def classifyFieldType_def newFieldCore_def)

lemma resolveField_chain:
  "resolveField cache (fname, ftype) tag annotation n =
     (if \<not> Exported fname \<or> resolveFieldNameFromTag tag fname = [] then (None, cache)
      else
        (case classifyFieldType cache ftype
                (newFieldCore (resolveFieldNameFromTag tag fname) fname ftype tag) n of
           (ResolvedField core items mapValues inline, cache') \<Rightarrow>
             (Some (ResolvedField (applyFieldOverrides annotation core) items mapValues inline),
              cache')))"
  by (simp add: resolveField_def Let_def classifyFieldType_def newFieldCore_def)

lemma RAS_None_cache:
  "fst (resolveAnonymousStruct c t n) = None \<Longrightarrow> snd (resolveAnonymousStruct c t n) = c"
  by (subst (asm) resolveAnonymousStruct.simps, subst resolveAnonymousStruct.simps)
     (auto split: GoType.splits prod.splits)

lemma RSlice_None_cache:
  "fst (resolveSliceOfAnonymousStruct c t n) = None \<Longrightarrow>
   snd (resolveSliceOfAnonymousStruct c t n) = c"
  by (subst (asm) resolveSliceOfAnonymousStruct.simps, subst resolveSliceOfAnonymousStruct.simps)
     (auto split: GoType.splits simp: RAS_None_cache)

lemma RMap_None_cache:
  "fst (resolveMapOfAnonymousStruct c t n) = None \<Longrightarrow>
   snd (resolveMapOfAnonymousStruct c t n) = c"
  by (subst (asm) resolveMapOfAnonymousStruct.simps, subst resolveMapOfAnonymousStruct.simps)
     (auto split: GoType.splits simp: RAS_None_cache)

lemma newFieldCore_fresh: "freshCore (newFieldCore a b c d)"
  by (simp add: freshCore_def newFieldCore_def emptyFieldCore_def)

lemma classified_plain:
  assumes "freshCore core"
  shows "classifiedOnce
           (ResolvedField (withTypeInfo (checkUnresolvedStruct t core n) (typeInfoOf t))
              None None None)"
proof -
  have ic: "infoClass (typeInfoOf t)" by (rule typeInfoOf_class)
  from checkUnresolved_cases[of t core n]
  show ?thesis
  proof
    assume "checkUnresolvedStruct t core n = core"
    then show ?thesis using assms ic
      by (auto simp: classifiedOnce_def classCount_def withTypeInfo_def freshCore_def
            infoClass_def isPrimitiveType_def)
  next
    assume "\<exists>name. checkUnresolvedStruct t core n =
        core\<lparr>rfIsUnresolvedStruct := True, rfUnresolvedTypeName := name\<rparr> \<and>
        (tiIsArray (typeInfoOf t) \<or> tiOpenAPIType (typeInfoOf t) = ''string'')"
    then obtain name where
      eq: "checkUnresolvedStruct t core n =
             core\<lparr>rfIsUnresolvedStruct := True, rfUnresolvedTypeName := name\<rparr>"
      and ty: "tiIsArray (typeInfoOf t) \<or> tiOpenAPIType (typeInfoOf t) = ''string''"
      by blast
    show ?thesis using assms ic ty
      by (auto simp: eq classifiedOnce_def classCount_def withTypeInfo_def freshCore_def
            infoClass_def isPrimitiveType_def)
  qed
qed

lemma chain_ok:
  assumes cc: "cacheConsistent c"
    and fresh: "freshCore core"
    and A1: "okRes (resolveAnonymousStruct c ft n)"
    and A2: "fst (resolveAnonymousStruct c ft n) = None \<Longrightarrow>
             okRes (resolveSliceOfAnonymousStruct c ft n)"
    and A3: "fst (resolveAnonymousStruct c ft n) = None \<Longrightarrow>
             fst (resolveSliceOfAnonymousStruct c ft n) = None \<Longrightarrow>
             okRes (resolveMapOfAnonymousStruct c ft n)"
  shows "cacheConsistent (snd (classifyFieldType c ft core n)) \<and>
         allClassified (fst (classifyFieldType c ft core n))"
proof (cases "fst (resolveAnonymousStruct c ft n)")
  case (Some fs)
  then obtain c1 where r: "resolveAnonymousStruct c ft n = (Some fs, c1)"
    by (cases "resolveAnonymousStruct c ft n") auto
  have "cacheConsistent c1" "list_all allClassified fs"
    using A1 r by (auto simp: okRes_def)
  then show ?thesis using fresh r
    by (simp add: classifyFieldType_def classifiedOnce_def classCount_def freshCore_def
          isPrimitiveType_def)
next
  case None
  then have r1: "resolveAnonymousStruct c ft n = (None, c)"
    using RAS_None_cache[of c ft n] by (cases "resolveAnonymousStruct c ft n") auto
  show ?thesis
  proof (cases "fst (resolveSliceOfAnonymousStruct c ft n)")
    case (Some fs)
    then obtain c2 where r: "resolveSliceOfAnonymousStruct c ft n = (Some fs, c2)"
      by (cases "resolveSliceOfAnonymousStruct c ft n") auto
    have "cacheConsistent c2" "list_all allClassified fs"
      using A2[OF None] r by (auto simp: okRes_def)
    then show ?thesis using fresh r r1
      by (simp add: classifyFieldType_def classifiedOnce_def classCount_def freshCore_def
            isPrimitiveType_def)
  next
    case n2: None
    then have r2: "resolveSliceOfAnonymousStruct c ft n = (None, c)"
      using RSlice_None_cache[of c ft n]
      by (cases "resolveSliceOfAnonymousStruct c ft n") auto
    show ?thesis
    proof (cases "fst (resolveMapOfAnonymousStruct c ft n)")
      case (Some fs)
      then obtain c3 where r: "resolveMapOfAnonymousStruct c ft n = (Some fs, c3)"
        by (cases "resolveMapOfAnonymousStruct c ft n") auto
      have "cacheConsistent c3" "list_all allClassified fs"
        using A3[OF None n2] r by (auto simp: okRes_def)
      then show ?thesis using fresh r r1 r2
        by (simp add: classifyFieldType_def classifiedOnce_def classCount_def freshCore_def
              isPrimitiveType_def)
    next
      case n3: None
      then have r3: "resolveMapOfAnonymousStruct c ft n = (None, c)"
        using RMap_None_cache[of c ft n]
        by (cases "resolveMapOfAnonymousStruct c ft n") auto
      obtain ti c4 where r4: "resolveType c ft = (ti, c4)" by (cases "resolveType c ft")
      have ti: "ti = typeInfoOf ft" using resolveType_fst[OF cc, of ft] r4 by simp
      have c4: "cacheConsistent c4" using resolveType_consistent[OF cc, of ft] r4 by simp
      show ?thesis using r1 r2 r3 r4 c4 classified_plain[OF fresh, of ft n]
        by (simp add: classifyFieldType_def ti)
    qed
  qed
qed

lemma anonymous_ok:
  shows "cacheConsistent c \<longrightarrow> okRes (resolveAnonymousStruct c t n)"
    and "cacheConsistent c1 \<longrightarrow>
           cacheConsistent (snd (resolveAnonFields c1 flds n1)) \<and>
           list_all allClassified (fst (resolveAnonFields c1 flds n1))"
    and "cacheConsistent c2 \<longrightarrow> okRes (resolveSliceOfAnonymousStruct c2 t2 n2)"
    and "cacheConsistent c3 \<longrightarrow> okRes (resolveMapOfAnonymousStruct c3 t3 n3)"
proof (induction c t n and c1 flds n1 and c2 t2 n2 and c3 t3 n3
    rule: resolveAnonymousStruct_resolveAnonFields_resolveSliceOfAnonymousStruct_resolveMapOfAnonymousStruct.induct)
  case (1 cache t schemaNames)
  show ?case
  proof
    assume cc: "cacheConsistent cache"
    show "okRes (resolveAnonymousStruct cache t schemaNames)"
    proof (cases "unwrapPointer t")
      case (Struct fs)
      then show ?thesis using "1.IH"[OF Struct] cc
        by (subst resolveAnonymousStruct.simps)
           (auto simp: okRes_def split: prod.splits)
    qed (use cc in \<open>subst resolveAnonymousStruct.simps, simp add: okRes_def\<close>)+
  qed
next
  case (2 cache schemaNames)
  show ?case by (subst (1 2) resolveAnonFields.simps) simp
next
  case (3 cache fname ftype tag rest schemaNames)
  show ?case
  proof
    assume cc: "cacheConsistent cache"
    show "cacheConsistent (snd (resolveAnonFields cache ((fname, ftype, tag) # rest) schemaNames)) \<and>
          list_all allClassified (fst (resolveAnonFields cache ((fname, ftype, tag) # rest) schemaNames))"
    proof (cases "\<not> Exported fname \<or> resolveFieldNameFromTag tag fname = []")
      case True
      then have "resolveAnonFields cache ((fname, ftype, tag) # rest) schemaNames
                 = resolveAnonFields cache rest schemaNames"
        by (simp add: resolveAnonFields_Cons)
      moreover have "cacheConsistent (snd (resolveAnonFields cache rest schemaNames)) \<and>
          list_all allClassified (fst (resolveAnonFields cache rest schemaNames))"
        using True "3.IH"(1) "3.IH"(2)[OF _ refl] cc by blast
      ultimately show ?thesis by simp
    next
      case False
      then have ex: "\<not> \<not> Exported fname" and nm: "resolveFieldNameFromTag tag fname \<noteq> []"
        by auto
      define core where "core = newFieldCore (resolveFieldNameFromTag tag fname) fname ftype tag"
      have A1: "okRes (resolveAnonymousStruct cache ftype schemaNames)"
        using "3.IH"(3)[OF ex refl nm refl refl] cc by blast
      have A2: "okRes (resolveSliceOfAnonymousStruct cache ftype schemaNames)"
        if n: "fst (resolveAnonymousStruct cache ftype schemaNames) = None"
      proof -
        have r: "(None, cache) = resolveAnonymousStruct cache ftype schemaNames"
          using n RAS_None_cache[OF n] by (cases "resolveAnonymousStruct cache ftype schemaNames") auto
        show ?thesis using "3.IH"(4)[OF ex refl nm refl refl r refl] cc by blast
      qed
      have A3: "okRes (resolveMapOfAnonymousStruct cache ftype schemaNames)"
        if n: "fst (resolveAnonymousStruct cache ftype schemaNames) = None"
          and n2: "fst (resolveSliceOfAnonymousStruct cache ftype schemaNames) = None"
      proof -
        have r: "(None, cache) = resolveAnonymousStruct cache ftype schemaNames"
          using n RAS_None_cache[OF n] by (cases "resolveAnonymousStruct cache ftype schemaNames") auto
        have r2: "(None, cache) = resolveSliceOfAnonymousStruct cache ftype schemaNames"
          using n2 RSlice_None_cache[OF n2]
          by (cases "resolveSliceOfAnonymousStruct cache ftype schemaNames") auto
        show ?thesis using "3.IH"(5)[OF ex refl nm refl refl r refl r2 refl] cc by blast
      qed
      have fr: "freshCore core" unfolding core_def by (rule newFieldCore_fresh)
      have ch: "cacheConsistent (snd (classifyFieldType cache ftype core schemaNames)) \<and>
                allClassified (fst (classifyFieldType cache ftype core schemaNames))"
        by (rule chain_ok[OF cc fr A1 A2 A3])
      obtain field cache' where r: "classifyFieldType cache ftype core schemaNames = (field, cache')"
        by (cases "classifyFieldType cache ftype core schemaNames")
      note r' = r[symmetric, unfolded classifyFieldType_def core_def newFieldCore_def]
      have ihq: "cacheConsistent cache' \<longrightarrow>
           cacheConsistent (snd (resolveAnonFields cache' rest schemaNames)) \<and>
           list_all allClassified (fst (resolveAnonFields cache' rest schemaNames))"
        using "3.IH"(6)[OF ex refl nm refl refl r'] .
      have "resolveAnonFields cache ((fname, ftype, tag) # rest) schemaNames =
            (field # fst (resolveAnonFields cache' rest schemaNames),
             snd (resolveAnonFields cache' rest schemaNames))"
        using False r by (simp add: resolveAnonFields_Cons core_def split: prod.splits)
      then show ?thesis using ch r ihq by simp
    qed
  qed
next
  case (4 cache t schemaNames)
  show ?case
  proof
    assume cc: "cacheConsistent cache"
    show "okRes (resolveSliceOfAnonymousStruct cache t schemaNames)"
    proof (cases "unwrapPointer t")
      case (Slice e)
      then show ?thesis using "4.IH"[OF Slice] cc
        by (subst resolveSliceOfAnonymousStruct.simps) simp
    qed (use cc in \<open>subst resolveSliceOfAnonymousStruct.simps, simp add: okRes_def\<close>)+
  qed
next
  case (5 cache t schemaNames)
  show ?case
  proof
    assume cc: "cacheConsistent cache"
    show "okRes (resolveMapOfAnonymousStruct cache t schemaNames)"
    proof (cases "unwrapPointer t")
      case (Map k v)
      then show ?thesis using "5.IH"[OF Map] cc
        by (subst resolveMapOfAnonymousStruct.simps) simp
    qed (use cc in \<open>subst resolveMapOfAnonymousStruct.simps, simp add: okRes_def\<close>)+
  qed
qed

section \<open>Properties of field names\<close>

lemma Index_comma:
  "(case Index v '','' of Some idx \<Rightarrow> take idx v | None \<Rightarrow> v) = tagNamePart v"
proof (induction v)
  case Nil
  then show ?case by (simp add: tagNamePart_def)
next
  case (Cons c cs)
  then show ?case
    by (cases "Index cs '',''") (auto simp: tagNamePart_def HasPrefix_def)
qed

lemma resolveFromTags_step:
  "resolveFromTags tag (k # ks) =
     (let v = StructTagGet tag k in
      if v = [] then resolveFromTags tag ks
      else if v = ''-'' then Some []
      else if tagNamePart v = [] then resolveFromTags tag ks
      else Some (tagNamePart v))"
  by (simp add: Let_def Index_comma)

lemma resolveName_chain:
  "resolveFieldNameFromTag tag goName =
     (let j = StructTagGet tag ''json''; x = StructTagGet tag ''xml'' in
      if j = ''-'' then []
      else if tagNamePart j \<noteq> [] then tagNamePart j
      else if x = ''-'' then []
      else if tagNamePart x \<noteq> [] then tagNamePart x
      else goName)"
  by (auto simp: resolveFieldNameFromTag_def SupportedTags_def resolveFromTags_step Let_def
        tagNamePart_def simp del: resolveFromTags.simps(2))

lemma checkUnresolved_keeps:
  "rfName (checkUnresolvedStruct t r n) = rfName r \<and>
   rfGoName (checkUnresolvedStruct t r n) = rfGoName r \<and>
   rfRequired (checkUnresolvedStruct t r n) = rfRequired r"
  using checkUnresolved_cases[of t r n] by auto

lemma classify_keeps:
  "rfName (rfCore (fst (classifyFieldType c ft core n))) = rfName core \<and>
   rfGoName (rfCore (fst (classifyFieldType c ft core n))) = rfGoName core \<and>
   rfRequired (rfCore (fst (classifyFieldType c ft core n))) = rfRequired core"
  by (simp add: classifyFieldType_def withTypeInfo_def checkUnresolved_keeps
        split: prod.splits option.splits)

lemma applyFieldOverrides_keeps:
  "rfName (applyFieldOverrides a r) = rfName r \<and>
   rfGoName (applyFieldOverrides a r) = rfGoName r \<and>
   rfRequired (applyFieldOverrides a r) = rfRequired r \<and>
   rfIsArray (applyFieldOverrides a r) = rfIsArray r \<and>
   rfIsMap (applyFieldOverrides a r) = rfIsMap r \<and>
   rfIsAnyValue (applyFieldOverrides a r) = rfIsAnyValue r \<and>
   rfOpenAPIType (applyFieldOverrides a r) = rfOpenAPIType r \<and>
   rfNullable (applyFieldOverrides a r) = rfNullable r \<and>
   rfIsUnresolvedStruct (applyFieldOverrides a r) = rfIsUnresolvedStruct r"
  by (simp add: applyFieldOverrides_def split: option.splits)

lemma resolveField_Some:
  assumes "Exported fname" "resolveFieldNameFromTag tag fname \<noteq> []"
  shows "\<exists>core items mv inl.
           fst (classifyFieldType cache ftype
                  (newFieldCore (resolveFieldNameFromTag tag fname) fname ftype tag) n)
             = ResolvedField core items mv inl \<and>
           fst (resolveField cache (fname, ftype) tag annotation n)
             = Some (ResolvedField (applyFieldOverrides annotation core) items mv inl) \<and>
           snd (resolveField cache (fname, ftype) tag annotation n)
             = snd (classifyFieldType cache ftype
                  (newFieldCore (resolveFieldNameFromTag tag fname) fname ftype tag) n)"
proof -
  obtain fld c' where r: "classifyFieldType cache ftype
       (newFieldCore (resolveFieldNameFromTag tag fname) fname ftype tag) n = (fld, c')"
    by (cases "classifyFieldType cache ftype
       (newFieldCore (resolveFieldNameFromTag tag fname) fname ftype tag) n")
  obtain core items mv inl where f: "fld = ResolvedField core items mv inl" by (cases fld)
  show ?thesis using assms r f by (simp add: resolveField_chain)
qed

text \<open>
  Claim C6.  The name of a schema field comes from the \<open>json\<close> tag, then the \<open>xml\<close>
  tag, then the Go name.  A \<open>json\<close> value of exactly \<open>-\<close> omits the field; so does an
  \<open>xml\<close> value of exactly \<open>-\<close> when the \<open>json\<close> tag is absent or has an empty name
  part.  A tag whose name part is empty (as in \<open>json:",omitempty"\<close>) passes the choice
  on to the next tag.  \<open>resolveField\<close> skips every unexported field, whatever its tags,
  and every field whose resolved name is empty; every other field gets the resolved
  name.  The statement is for the tags and names on which the tag lookup and the
  export test are those of the Go library: a tag of ASCII bytes without a backslash,
  and a Go name that starts with an ASCII byte.
\<close>

theorem field_name_fallback_chain:
  assumes "plainTag tag" and "asciiInitial goName"
  shows
  "(StructTagGet tag ''json'' = ''-'' \<longrightarrow> resolveFieldNameFromTag tag goName = []) \<and>
   (StructTagGet tag ''json'' \<noteq> ''-'' \<and> tagNamePart (StructTagGet tag ''json'') \<noteq> [] \<longrightarrow>
      resolveFieldNameFromTag tag goName = tagNamePart (StructTagGet tag ''json'')) \<and>
   (tagNamePart (StructTagGet tag ''json'') = [] \<and> StructTagGet tag ''xml'' = ''-'' \<longrightarrow>
      resolveFieldNameFromTag tag goName = []) \<and>
   (tagNamePart (StructTagGet tag ''json'') = [] \<and> StructTagGet tag ''xml'' \<noteq> ''-'' \<and>
    tagNamePart (StructTagGet tag ''xml'') \<noteq> [] \<longrightarrow>
      resolveFieldNameFromTag tag goName = tagNamePart (StructTagGet tag ''xml'')) \<and>
   (tagNamePart (StructTagGet tag ''json'') = [] \<and> tagNamePart (StructTagGet tag ''xml'') = [] \<longrightarrow>
      resolveFieldNameFromTag tag goName = goName) \<and>
   (\<not> Exported goName \<longrightarrow> fst (resolveField cache (goName, ftype) tag annotation names) = None) \<and>
   (resolveFieldNameFromTag tag goName = [] \<longrightarrow>
      fst (resolveField cache (goName, ftype) tag annotation names) = None) \<and>
   (Exported goName \<and> resolveFieldNameFromTag tag goName \<noteq> [] \<longrightarrow>
      (\<exists>f. fst (resolveField cache (goName, ftype) tag annotation names) = Some f \<and>
           rfName (rfCore f) = resolveFieldNameFromTag tag goName \<and>
           rfGoName (rfCore f) = goName))"
proof -
  have chain: "resolveFieldNameFromTag tag goName =
     (let j = StructTagGet tag ''json''; x = StructTagGet tag ''xml'' in
      if j = ''-'' then []
      else if tagNamePart j \<noteq> [] then tagNamePart j
      else if x = ''-'' then []
      else if tagNamePart x \<noteq> [] then tagNamePart x
      else goName)"
    by (rule resolveName_chain)
  have dash: "tagNamePart ''-'' \<noteq> []" by (simp add: tagNamePart_def)
  have skip: "\<not> Exported goName \<or> resolveFieldNameFromTag tag goName = [] \<Longrightarrow>
      fst (resolveField cache (goName, ftype) tag annotation names) = None"
    by (simp add: resolveField_chain)
  have keep: "\<exists>f. fst (resolveField cache (goName, ftype) tag annotation names) = Some f \<and>
           rfName (rfCore f) = resolveFieldNameFromTag tag goName \<and>
           rfGoName (rfCore f) = goName"
    if ex: "Exported goName" and nm: "resolveFieldNameFromTag tag goName \<noteq> []"
  proof -
    obtain core items mv inl where
      c: "fst (classifyFieldType cache ftype
                  (newFieldCore (resolveFieldNameFromTag tag goName) goName ftype tag) names)
             = ResolvedField core items mv inl"
      and r: "fst (resolveField cache (goName, ftype) tag annotation names)
             = Some (ResolvedField (applyFieldOverrides annotation core) items mv inl)"
      using resolveField_Some[OF ex nm] by blast
    have "rfName core = resolveFieldNameFromTag tag goName \<and> rfGoName core = goName"
      using classify_keeps[of cache ftype
          "newFieldCore (resolveFieldNameFromTag tag goName) goName ftype tag" names] c
      by (simp add: newFieldCore_def)
    then show ?thesis using r by (simp add: applyFieldOverrides_keeps)
  qed
  show ?thesis
    using chain dash skip keep by (auto simp: Let_def)
qed

section \<open>The table of basic kinds\<close>

lemma typeInfoOf_Basic: "typeInfoOf (Basic k) = basicTypeInfo k emptyTypeInfo"
  by (subst typeInfoOf.simps) (simp add: Let_def)

lemma typeInfoOf_default:
  "typeInfoOf (Array m e) = primitiveInfo ''string'' []"
  "typeInfoOf (Map k v) = primitiveInfo ''string'' []"
  "typeInfoOf (Struct fs) = primitiveInfo ''string'' []"
  "typeInfoOf (Chan e) = primitiveInfo ''string'' []"
  "typeInfoOf Signature = primitiveInfo ''string'' []"
  "typeInfoOf (TypeParam x) = primitiveInfo ''string'' []"
  "typeInfoOf Interface = (primitiveInfo [] [])\<lparr>tiIsAnyValue := True\<rparr>"
  by (subst typeInfoOf.simps, simp add: Let_def primitiveInfo_def emptyTypeInfo_def)+

text \<open>
  Claim C8, as the code has it.  On a consistent cache: \<open>bool\<close> is \<open>boolean\<close>;
  \<open>int\<close>, \<open>int8\<close>, \<open>int16\<close> and the unsigned kinds \<open>uint\<close> to \<open>uint64\<close> are
  \<open>integer\<close> without a format; \<open>int32\<close> and \<open>int64\<close> are \<open>integer\<close> with the formats
  \<open>int32\<close> and \<open>int64\<close>; \<open>float32\<close> and \<open>float64\<close> are \<open>number\<close> with the formats
  \<open>float\<close> and \<open>double\<close>; \<open>string\<close> is \<open>string\<close>; every other basic kind, and every
  array, map, struct, channel, function and type parameter, is \<open>string\<close>; an interface
  is an any-value with no type.
\<close>

theorem basic_kind_table:
  "cacheConsistent cache \<longrightarrow>
   fst (resolveType cache (Basic Bool)) = primitiveInfo ''boolean'' [] \<and>
   (k \<in> {IntKind, Int8, Int16, Uint, Uint8, Uint16, Uint32, Uint64} \<longrightarrow>
      fst (resolveType cache (Basic k)) = primitiveInfo ''integer'' []) \<and>
   fst (resolveType cache (Basic Int32)) = primitiveInfo ''integer'' ''int32'' \<and>
   fst (resolveType cache (Basic Int64)) = primitiveInfo ''integer'' ''int64'' \<and>
   fst (resolveType cache (Basic Float32)) = primitiveInfo ''number'' ''float'' \<and>
   fst (resolveType cache (Basic Float64)) = primitiveInfo ''number'' ''double'' \<and>
   fst (resolveType cache (Basic String)) = primitiveInfo ''string'' [] \<and>
   (k \<in> {Invalid, Uintptr, Complex64, Complex128, UnsafePointer, UntypedBool, UntypedInt,
          UntypedRune, UntypedFloat, UntypedComplex, UntypedString, UntypedNil} \<longrightarrow>
      fst (resolveType cache (Basic k)) = primitiveInfo ''string'' []) \<and>
   fst (resolveType cache Interface) = (primitiveInfo [] [])\<lparr>tiIsAnyValue := True\<rparr> \<and>
   fst (resolveType cache (Array m e)) = primitiveInfo ''string'' [] \<and>
   fst (resolveType cache (Map kt vt)) = primitiveInfo ''string'' [] \<and>
   fst (resolveType cache (Struct fs)) = primitiveInfo ''string'' [] \<and>
   fst (resolveType cache (Chan e)) = primitiveInfo ''string'' [] \<and>
   fst (resolveType cache Signature) = primitiveInfo ''string'' [] \<and>
   fst (resolveType cache (TypeParam x)) = primitiveInfo ''string'' []"
proof
  assume cc: "cacheConsistent cache"
  have r: "fst (resolveType cache t) = typeInfoOf t" for t
    using cc by (rule resolveType_fst)
  show "fst (resolveType cache (Basic Bool)) = primitiveInfo ''boolean'' [] \<and>
   (k \<in> {IntKind, Int8, Int16, Uint, Uint8, Uint16, Uint32, Uint64} \<longrightarrow>
      fst (resolveType cache (Basic k)) = primitiveInfo ''integer'' []) \<and>
   fst (resolveType cache (Basic Int32)) = primitiveInfo ''integer'' ''int32'' \<and>
   fst (resolveType cache (Basic Int64)) = primitiveInfo ''integer'' ''int64'' \<and>
   fst (resolveType cache (Basic Float32)) = primitiveInfo ''number'' ''float'' \<and>
   fst (resolveType cache (Basic Float64)) = primitiveInfo ''number'' ''double'' \<and>
   fst (resolveType cache (Basic String)) = primitiveInfo ''string'' [] \<and>
   (k \<in> {Invalid, Uintptr, Complex64, Complex128, UnsafePointer, UntypedBool, UntypedInt,
          UntypedRune, UntypedFloat, UntypedComplex, UntypedString, UntypedNil} \<longrightarrow>
      fst (resolveType cache (Basic k)) = primitiveInfo ''string'' []) \<and>
   fst (resolveType cache Interface) = (primitiveInfo [] [])\<lparr>tiIsAnyValue := True\<rparr> \<and>
   fst (resolveType cache (Array m e)) = primitiveInfo ''string'' [] \<and>
   fst (resolveType cache (Map kt vt)) = primitiveInfo ''string'' [] \<and>
   fst (resolveType cache (Struct fs)) = primitiveInfo ''string'' [] \<and>
   fst (resolveType cache (Chan e)) = primitiveInfo ''string'' [] \<and>
   fst (resolveType cache Signature) = primitiveInfo ''string'' [] \<and>
   fst (resolveType cache (TypeParam x)) = primitiveInfo ''string'' []"
    unfolding r typeInfoOf_default typeInfoOf_Basic
    by (auto simp: primitiveInfo_def emptyTypeInfo_def)
qed

lemma cacheConsistent_empty: "cacheConsistent Map.empty"
  by (simp add: cacheConsistent_def)

theorem basic_kind_table_witness:
  "cacheConsistent Map.empty \<and>
   Uint16 \<in> {IntKind, Int8, Int16, Uint, Uint8, Uint16, Uint32, Uint64} \<and>
   fst (resolveType Map.empty (Basic Uint16)) = primitiveInfo ''integer'' [] \<and>
   fst (resolveType Map.empty (Basic Int64)) = primitiveInfo ''integer'' ''int64''"
  using basic_kind_table [of Map.empty Uint16] cacheConsistent_empty by simp

text \<open>
  The 32-bit and 64-bit unsigned kinds are resolved without a format, and \<open>uintptr\<close>
  is not resolved to \<open>integer\<close>.
\<close>

theorem unsigned_kinds_have_no_format:
  "fst (resolveType Map.empty (Basic Uint32)) = primitiveInfo ''integer'' [] \<and>
   fst (resolveType Map.empty (Basic Uint64)) = primitiveInfo ''integer'' [] \<and>
   fst (resolveType Map.empty (Basic Uintptr)) = primitiveInfo ''string'' []"
  by (simp add: resolveType.simps Let_def primitiveInfo_def emptyTypeInfo_def)

text \<open>
  Claim C7.  \<open>resolveType\<close> sets \<open>IsNullable\<close> when it removes a pointer, but for a
  named type that is not a special type it then returns the result of the recursive call
  on the underlying type, which does not carry the flag.  A field \<open>Manager *Employee\<close>
  is resolved with \<open>Nullable = false\<close>, whereas \<open>Nickname *string\<close> is nullable.
\<close>

theorem pointer_to_named_type_not_nullable:
  "map_option (\<lambda>f. rfNullable (rfCore f))
     (fst (resolveField Map.empty
        (''Manager'', Pointer (Named (Some ''example.com/app'') ''Employee''
                        (Struct [(''Name'', Basic String, [])])))
        [] None (\<lambda>n. n = ''Employee''))) = Some False \<and>
   map_option (\<lambda>f. rfNullable (rfCore f))
     (fst (resolveField Map.empty (''Nickname'', Pointer (Basic String)) [] None
        (\<lambda>n. n = ''Employee''))) = Some True"
  by (simp add: resolveField_def Exported_def resolveFieldNameFromTag_def SupportedTags_def
      StructTagGet_def resolveAnonymousStruct.simps resolveSliceOfAnonymousStruct.simps
      resolveMapOfAnonymousStruct.simps resolveType.simps Let_def withTypeInfo_def
      resolveSpecialType_def emptyTypeInfo_def applyFieldOverrides_def)

section \<open>Classification of resolved fields\<close>

lemma allClassified_overrides:
  "allClassified (ResolvedField (applyFieldOverrides a core) items mv inl) =
   allClassified (ResolvedField core items mv inl)"
  by (simp add: classifiedOnce_def classCount_def applyFieldOverrides_keeps)

text \<open>
  Claim C9, as the code has it.  On a consistent cache every field that \<open>resolveField\<close>
  returns, and every field nested in it, carries exactly one of the classifications
  inline object, array, map of inline objects, any value and primitive type.  The mark of
  an unresolved struct reference is not a classification of its own: a marked field is
  an array or has the primitive type \<open>string\<close>.
\<close>

theorem field_classification:
  "cacheConsistent cache \<and> fst (resolveField cache field tag annotation names) = Some f \<longrightarrow>
     allClassified f \<and> cacheConsistent (snd (resolveField cache field tag annotation names))"
proof
  assume a: "cacheConsistent cache \<and> fst (resolveField cache field tag annotation names) = Some f"
  then have cc: "cacheConsistent cache" by simp
  obtain fname ftype where fld: "field = (fname, ftype)" by (cases field)
  have ex: "Exported fname" and nm: "resolveFieldNameFromTag tag fname \<noteq> []"
    using a fld by (auto simp: resolveField_chain split: if_splits)
  define core0 where "core0 = newFieldCore (resolveFieldNameFromTag tag fname) fname ftype tag"
  obtain core items mv inl where
    c: "fst (classifyFieldType cache ftype core0 names) = ResolvedField core items mv inl"
    and r: "fst (resolveField cache (fname, ftype) tag annotation names)
             = Some (ResolvedField (applyFieldOverrides annotation core) items mv inl)"
    and s: "snd (resolveField cache (fname, ftype) tag annotation names)
             = snd (classifyFieldType cache ftype core0 names)"
    using resolveField_Some[OF ex nm] unfolding core0_def by blast
  have fr: "freshCore core0" unfolding core0_def by (rule newFieldCore_fresh)
  have ok: "cacheConsistent (snd (classifyFieldType cache ftype core0 names)) \<and>
            allClassified (fst (classifyFieldType cache ftype core0 names))"
    using chain_ok[OF cc fr] anonymous_ok(1,3,4) cc by blast
  have "f = ResolvedField (applyFieldOverrides annotation core) items mv inl"
    using a r fld by simp
  then show "allClassified f \<and> cacheConsistent (snd (resolveField cache field tag annotation names))"
    using ok c s fld allClassified_overrides[of annotation core items mv inl] by simp
qed

text \<open>
  A field of a named struct type that is not a schema is marked as an unresolved struct
  reference and has the primitive type \<open>string\<close> at the same time.
\<close>

theorem unresolved_struct_is_also_string:
  "map_option (\<lambda>f. (rfIsUnresolvedStruct (rfCore f), rfOpenAPIType (rfCore f)))
     (fst (resolveField Map.empty
        (''Address'', Named (Some ''example.com/app'') ''Address''
                        (Struct [(''Street'', Basic String, [])]))
        [] None (\<lambda>n. False))) = Some (True, ''string'')"
  by (simp add: resolveField_def Exported_def resolveFieldNameFromTag_def SupportedTags_def
      StructTagGet_def resolveAnonymousStruct.simps resolveSliceOfAnonymousStruct.simps
      resolveMapOfAnonymousStruct.simps resolveType.simps Let_def withTypeInfo_def
      resolveSpecialType_def emptyTypeInfo_def applyFieldOverrides_def
      checkUnresolvedStruct.simps isSpecialType_def)

section \<open>Required fields\<close>

lemma resolveAnonFields_required:
  "map (\<lambda>f. (rfGoName (rfCore f), rfRequired (rfCore f))) (fst (resolveAnonFields c flds n)) =
   map (\<lambda>(fname, ftype, tag). (fname, requiredByTag tag)) (filter anonFieldKept flds)"
proof (induction flds arbitrary: c)
  case Nil
  then show ?case by (simp add: resolveAnonFields.simps)
next
  case (Cons fld rest)
  obtain fname ftype tag where fld: "fld = (fname, ftype, tag)" by (cases fld)
  show ?case
  proof (cases "anonFieldKept fld")
    case False
    then show ?thesis using Cons[of c] fld
      by (simp add: resolveAnonFields_Cons anonFieldKept_def)
  next
    case True
    define core where "core = newFieldCore (resolveFieldNameFromTag tag fname) fname ftype tag"
    obtain field c' where r: "classifyFieldType c ftype core n = (field, c')"
      by (cases "classifyFieldType c ftype core n")
    have k: "rfGoName (rfCore field) = fname \<and> rfRequired (rfCore field) = requiredByTag tag"
      using classify_keeps[of c ftype core n] r
      by (simp add: core_def newFieldCore_def requiredByTag_def)
    have "fst (resolveAnonFields c (fld # rest) n) = field # fst (resolveAnonFields c' rest n)"
      using True fld r by (simp add: resolveAnonFields_Cons anonFieldKept_def core_def split: prod.splits)
    then show ?thesis using Cons[of c'] True k fld by simp
  qed
qed

lemma resolveAnonymousStruct_Some:
  "fst (resolveAnonymousStruct c t n) = Some fs \<Longrightarrow>
   \<exists>flds. unwrapPointer t = Struct flds \<and> fs = fst (resolveAnonFields c flds n)"
  by (subst (asm) resolveAnonymousStruct.simps) (auto split: GoType.splits prod.splits)

lemma applyParamOverrides_required:
  "rfRequired (applyParamOverrides a r) = rfRequired r"
  by (simp add: applyParamOverrides_def split: option.splits)

lemma resolveFieldWithParamType_required:
  "fst (resolveFieldWithParamType c (fname, ftype) tag a pt) = Some f \<Longrightarrow>
   rfRequired (rfCore f) = requiredByTag tag"
  by (auto simp: resolveFieldWithParamType_def Let_def withTypeInfo_def requiredByTag_def
        applyParamOverrides_required split: if_splits option.splits prod.splits)

lemma resolveField_required:
  "fst (resolveField c (fname, ftype) tag a n) = Some f \<Longrightarrow>
   rfRequired (rfCore f) = requiredByTag tag"
proof -
  assume a: "fst (resolveField c (fname, ftype) tag a n) = Some f"
  have ex: "Exported fname" and nm: "resolveFieldNameFromTag tag fname \<noteq> []"
    using a by (auto simp: resolveField_chain split: if_splits)
  obtain core items mv inl where
    c: "fst (classifyFieldType c ftype
           (newFieldCore (resolveFieldNameFromTag tag fname) fname ftype tag) n)
         = ResolvedField core items mv inl"
    and r: "fst (resolveField c (fname, ftype) tag a n)
             = Some (ResolvedField (applyFieldOverrides a core) items mv inl)"
    using resolveField_Some[OF ex nm] by blast
  have "rfRequired core = requiredByTag tag"
    using classify_keeps[of c ftype
        "newFieldCore (resolveFieldNameFromTag tag fname) fname ftype tag" n] c
    by (simp add: newFieldCore_def requiredByTag_def)
  then show ?thesis using a r by (auto simp: applyFieldOverrides_keeps)
qed

lemma applyAnnotation_keeps:
  "rfRequired (applyAnnotation pf pi f a v) = rfRequired f \<and>
   rfGoName (applyAnnotation pf pi f a v) = rfGoName f"
  by (simp add: applyAnnotation_def split: option.splits)

lemma applyAnnotationPart_keeps:
  "rfRequired (applyAnnotationPart pf pi f p) = rfRequired f \<and>
   rfGoName (applyAnnotationPart pf pi f p) = rfGoName f"
  by (simp add: applyAnnotationPart_def Let_def applyAnnotation_keeps split: option.splits)

lemma foldl_keeps:
  "(\<And>f x. K (step f x) = K f) \<Longrightarrow> K (foldl step f xs) = K f"
  by (induction xs arbitrary: f) simp_all

lemma applyAnnotationLine_keeps:
  "rfRequired (applyAnnotationLine pf pi f l) = rfRequired f \<and>
   rfGoName (applyAnnotationLine pf pi f l) = rfGoName f"
proof -
  have a: "rfRequired (foldl (applyAnnotationPart pf pi) f xs) = rfRequired f" for xs
    by (rule foldl_keeps) (simp add: applyAnnotationPart_keeps)
  have b: "rfGoName (foldl (applyAnnotationPart pf pi) f xs) = rfGoName f" for xs
    by (rule foldl_keeps) (simp add: applyAnnotationPart_keeps)
  show ?thesis
    by (simp add: applyAnnotationLine_def Let_def a b split: option.splits prod.splits)
qed

lemma applyFieldAnnotations_keeps:
  "rfRequired (applyFieldAnnotations pf pi f ls) = rfRequired f \<and>
   rfGoName (applyFieldAnnotations pf pi f ls) = rfGoName f"
proof -
  have a: "rfRequired (foldl (applyAnnotationLine pf pi) f ls) = rfRequired f"
    by (rule foldl_keeps) (simp add: applyAnnotationLine_keeps)
  have b: "rfGoName (foldl (applyAnnotationLine pf pi) f ls) = rfGoName f"
    by (rule foldl_keeps) (simp add: applyAnnotationLine_keeps)
  show ?thesis by (simp add: applyFieldAnnotations_def a b)
qed

lemma classifyInline_keeps:
  "rfGoName (rfCore (fst (classifyInlineType c ft core n))) = rfGoName core \<and>
   rfRequired (rfCore (fst (classifyInlineType c ft core n))) = rfRequired core"
  by (simp add: classifyInlineType_def Let_def withTypeInfo_def
        split: prod.splits option.splits ResolvedField.splits)

lemma inlineResolvedName_kept:
  "afNames af = fieldName # others \<Longrightarrow>
   inlineResolvedName tagType (astFieldTag af) fieldName \<noteq> None \<longleftrightarrow> inlineFieldKept tagType af"
  by (auto simp: inlineResolvedName_def inlineFieldKept_def Let_def)

lemma inlineFieldsLoop_Cons:
  "inlineFieldsLoop pf pi cache (af # rest) comments tagType names =
     (case afNames af of
        [] \<Rightarrow> inlineFieldsLoop pf pi cache rest comments tagType names
      | fieldName # _ \<Rightarrow>
          (case inlineResolvedName tagType (astFieldTag af) fieldName of
             None \<Rightarrow> inlineFieldsLoop pf pi cache rest comments tagType names
           | Some resolvedName \<Rightarrow>
               (case classifyInlineType cache (afType af)
                       (emptyFieldCore\<lparr>rfGoName := fieldName,
                          rfName := (if resolvedName = [] \<or> resolvedName = ''-'' then fieldName
                                     else resolvedName),
                          rfRequired := \<not> Contains (astFieldTag af) ''omitempty''\<rparr>) names of
                  (ResolvedField core items mapValues inline, cache') \<Rightarrow>
                    (case inlineFieldsLoop pf pi cache' rest comments tagType names of
                       (out, cache'') \<Rightarrow>
                         (ResolvedField
                            (case comments fieldName of
                               Some comment \<Rightarrow> applyFieldAnnotations pf pi core comment
                             | None \<Rightarrow> core)
                            items mapValues inline # out, cache'')))))"
  by (simp only: inlineFieldsLoop.simps classifyInlineType_def inlineResolvedName_def Let_def)

lemma inlineFieldsLoop_required:
  "map (\<lambda>f. (rfGoName (rfCore f), rfRequired (rfCore f)))
       (fst (inlineFieldsLoop pf pi c flds comments tagType names)) =
   map (\<lambda>af. (hd (afNames af), requiredByTag (astFieldTag af)))
       (filter (inlineFieldKept tagType) flds)"
proof (induction flds arbitrary: c)
  case Nil
  then show ?case by simp
next
  case (Cons af rest)
  show ?case
  proof (cases "afNames af")
    case Nil
    then show ?thesis using Cons[of c]
      by (simp add: inlineFieldsLoop_Cons inlineFieldKept_def del: inlineFieldsLoop.simps)
  next
    case names: (Cons fieldName others)
    show ?thesis
    proof (cases "inlineResolvedName tagType (astFieldTag af) fieldName")
      case None
      then have "\<not> inlineFieldKept tagType af"
        using inlineResolvedName_kept[OF names, of tagType] by simp
      then show ?thesis using Cons[of c] names None
        by (simp add: inlineFieldsLoop_Cons del: inlineFieldsLoop.simps)
    next
      case (Some resolvedName)
      then have kept: "inlineFieldKept tagType af"
        using inlineResolvedName_kept[OF names, of tagType] by simp
      define core0 where "core0 = emptyFieldCore\<lparr>rfGoName := fieldName,
                          rfName := (if resolvedName = [] \<or> resolvedName = ''-'' then fieldName
                                     else resolvedName),
                          rfRequired := \<not> Contains (astFieldTag af) ''omitempty''\<rparr>"
      obtain fld c' where r: "classifyInlineType c (afType af) core0 names = (fld, c')"
        by (cases "classifyInlineType c (afType af) core0 names")
      obtain core items mv inl where f: "fld = ResolvedField core items mv inl" by (cases fld)
      have k: "rfGoName core = fieldName \<and> rfRequired core = requiredByTag (astFieldTag af)"
        using classifyInline_keeps[of c "afType af" core0 names] r f
        by (simp add: core0_def requiredByTag_def)
      define core' where "core' = (case comments fieldName of
                               Some comment \<Rightarrow> applyFieldAnnotations pf pi core comment
                             | None \<Rightarrow> core)"
      have k': "rfGoName core' = fieldName \<and> rfRequired core' = requiredByTag (astFieldTag af)"
        using k by (simp add: core'_def applyFieldAnnotations_keeps split: option.splits)
      have "fst (inlineFieldsLoop pf pi c (af # rest) comments tagType names) =
            ResolvedField core' items mv inl
              # fst (inlineFieldsLoop pf pi c' rest comments tagType names)"
        using names Some r f
        by (simp add: inlineFieldsLoop_Cons core0_def core'_def split: prod.splits
              del: inlineFieldsLoop.simps)
      then show ?thesis using Cons[of c'] kept k' names by simp
    qed
  qed
qed

lemma tag_examples:
  "StructTagGet (keyValueTag ''json'' ''-'' @ '' '' @ keyValueTag ''xml'' ''WontBeUsed'') ''json'' = ''-''"
  "StructTagGet (keyValueTag ''json'' '',omitempty'' @ '' '' @ keyValueTag ''xml'' ''from_xml'') ''json''
     = '',omitempty''"
  "StructTagGet (keyValueTag ''json'' '',omitempty'' @ '' '' @ keyValueTag ''xml'' ''from_xml'') ''xml''
     = ''from_xml''"
  "StructTagGet [] ''json'' = []"
  "StructTagGet [] ''xml'' = []"
  "StructTagGet (keyValueTag ''xml'' ''-'') ''json'' = []"
  "StructTagGet (keyValueTag ''xml'' ''-'') ''xml'' = ''-''"
  by (simp_all add: StructTagGet_def keyValueTag_def tagKeyChar_def Unquote_def Let_def)

theorem field_name_fallback_chain_witness:
  "plainTag (keyValueTag ''json'' ''-'' @ '' '' @ keyValueTag ''xml'' ''WontBeUsed'') \<and>
   asciiInitial ''Secret'' \<and>
   StructTagGet (keyValueTag ''json'' ''-'' @ '' '' @ keyValueTag ''xml'' ''WontBeUsed'') ''json'' = ''-'' \<and>
   resolveFieldNameFromTag
     (keyValueTag ''json'' ''-'' @ '' '' @ keyValueTag ''xml'' ''WontBeUsed'') ''Secret'' = [] \<and>
   fst (resolveField Map.empty (''Secret'', Basic String)
     (keyValueTag ''json'' ''-'' @ '' '' @ keyValueTag ''xml'' ''WontBeUsed'') None (\<lambda>n. False)) = None \<and>
   resolveFieldNameFromTag
     (keyValueTag ''json'' '',omitempty'' @ '' '' @ keyValueTag ''xml'' ''from_xml'') ''Name''
     = ''from_xml'' \<and>
   resolveFieldNameFromTag (keyValueTag ''xml'' ''-'') ''Name'' = [] \<and>
   resolveFieldNameFromTag [] ''Name'' = ''Name'' \<and>
   \<not> Exported ''hidden'' \<and>
   fst (resolveField Map.empty (''hidden'', Basic String) (keyValueTag ''json'' ''shown'') None
     (\<lambda>n. False)) = None"
proof -
  let ?T1 = "keyValueTag ''json'' ''-'' @ '' '' @ keyValueTag ''xml'' ''WontBeUsed''"
  let ?T2 = "keyValueTag ''json'' '',omitempty'' @ '' '' @ keyValueTag ''xml'' ''from_xml''"
  let ?T3 = "keyValueTag ''xml'' ''-''"
  let ?T4 = "keyValueTag ''json'' ''shown''"
  have part: "tagNamePart '',omitempty'' = []" "tagNamePart ''from_xml'' = ''from_xml''"
    "tagNamePart [] = []"
    by (simp_all add: tagNamePart_def)
  have ex: "\<not> Exported ''hidden''" by (simp add: Exported_def)
  have p1: "plainTag ?T1" by (simp add: plainTag_def keyValueTag_def)
  have p2: "plainTag ?T2" by (simp add: plainTag_def keyValueTag_def)
  have p3: "plainTag ?T3" by (simp add: plainTag_def keyValueTag_def)
  have p4: "plainTag ?T4" by (simp add: plainTag_def keyValueTag_def)
  have p5: "plainTag []" by (simp add: plainTag_def)
  have a1: "asciiInitial ''Secret''" by (simp add: asciiInitial_def)
  have a2: "asciiInitial ''Name''" by (simp add: asciiInitial_def)
  have a3: "asciiInitial ''hidden''" by (simp add: asciiInitial_def)
  have g1: "StructTagGet ?T1 ''json'' = ''-''" by (rule tag_examples)
  have g2: "StructTagGet ?T2 ''json'' = '',omitempty''" "StructTagGet ?T2 ''xml'' = ''from_xml''"
    by (rule tag_examples)+
  have g3: "StructTagGet ?T3 ''json'' = []" "StructTagGet ?T3 ''xml'' = ''-''"
    by (rule tag_examples)+
  have g4: "StructTagGet [] ''json'' = []" "StructTagGet [] ''xml'' = []"
    by (rule tag_examples)+
  have r1: "resolveFieldNameFromTag ?T1 ''Secret'' = []"
    using field_name_fallback_chain
        [OF p1 a1, of Map.empty "Basic String" None "\<lambda>n. False"] g1 by blast
  have s1: "fst (resolveField Map.empty (''Secret'', Basic String) ?T1 None (\<lambda>n. False)) = None"
    using field_name_fallback_chain
        [OF p1 a1, of Map.empty "Basic String" None "\<lambda>n. False"] r1 by blast
  have r2: "resolveFieldNameFromTag ?T2 ''Name'' = ''from_xml''"
    using field_name_fallback_chain
        [OF p2 a2, of Map.empty "Basic String" None "\<lambda>n. False"] g2 part by simp
  have r3: "resolveFieldNameFromTag ?T3 ''Name'' = []"
    using field_name_fallback_chain
        [OF p3 a2, of Map.empty "Basic String" None "\<lambda>n. False"] g3 part by simp
  have r4: "resolveFieldNameFromTag [] ''Name'' = ''Name''"
    using field_name_fallback_chain
        [OF p5 a2, of Map.empty "Basic String" None "\<lambda>n. False"] g4 part by simp
  have s5: "fst (resolveField Map.empty (''hidden'', Basic String) ?T4 None (\<lambda>n. False)) = None"
    using field_name_fallback_chain
        [OF p4 a3, of Map.empty "Basic String" None "\<lambda>n. False"] ex by blast
  show ?thesis
    using p1 a1 g1 r1 s1 r2 r3 r4 ex s5 by (intro conjI)
qed

theorem field_classification_witness:
  "cacheConsistent Map.empty \<and>
   fst (resolveField Map.empty
          (''Items'', Slice (Struct [(''Owner'', Pointer (Named (Some ''example.com/app'') ''Owner''
                                        (Struct [])), [])]))
          [] None (\<lambda>n. False)) \<noteq> None \<and>
   allClassified
     (the (fst (resolveField Map.empty
          (''Items'', Slice (Struct [(''Owner'', Pointer (Named (Some ''example.com/app'') ''Owner''
                                        (Struct [])), [])]))
          [] None (\<lambda>n. False))))"
proof -
  let ?fld = "(''Items'', Slice (Struct [(''Owner'', Pointer (Named (Some ''example.com/app'') ''Owner''
                                        (Struct [])), [])]))"
  have ex: "Exported ''Items''" by (simp add: Exported_def)
  have nm: "resolveFieldNameFromTag [] ''Items'' \<noteq> []"
    by (simp add: resolveFieldNameFromTag_def SupportedTags_def StructTagGet_def)
  obtain f where f: "fst (resolveField Map.empty ?fld [] None (\<lambda>n. False)) = Some f"
    using resolveField_Some[OF ex nm] by blast
  have "allClassified f"
    using field_classification [of Map.empty ?fld "[]" None "\<lambda>n. False" f] f
      cacheConsistent_empty by blast
  then show ?thesis using f cacheConsistent_empty by simp
qed

text \<open>
  Claim C10.  In all four places where the resolver builds a field (\<open>resolveField\<close>,
  \<open>resolveFieldWithParamType\<close>, the fields of an anonymous struct, the fields of an
  inline declaration) \<open>Required\<close> is true exactly when the field's tag does not
  contain \<open>omitempty\<close>, whatever the annotation or the \<open>@field\<close> comment says; a field
  without a tag is required.  For the two loops the statement names the fields that are
  not skipped, in order.
\<close>

theorem required_iff_no_omitempty:
  "(fst (resolveField cache (fname, ftype) tag annotation names) = Some f \<longrightarrow>
      rfRequired (rfCore f) = requiredByTag tag) \<and>
   (fst (resolveFieldWithParamType cache (fname, ftype) tag annotation paramType) = Some f' \<longrightarrow>
      rfRequired (rfCore f') = requiredByTag tag) \<and>
   (fst (resolveAnonymousStruct cache t names) = Some fs \<longrightarrow>
      (\<exists>flds. unwrapPointer t = Struct flds \<and>
         map (\<lambda>f. (rfGoName (rfCore f), rfRequired (rfCore f))) fs =
         map (\<lambda>(fname, ftype, tag). (fname, requiredByTag tag)) (filter anonFieldKept flds))) \<and>
   (fst (resolveInlineStructFields parseFloat parseInt cache (Some astFields) comments tagType
           inlineNames) = Some out \<longrightarrow>
      map (\<lambda>f. (rfGoName (rfCore f), rfRequired (rfCore f))) out =
      map (\<lambda>af. (hd (afNames af), requiredByTag (astFieldTag af)))
          (filter (inlineFieldKept tagType) astFields)) \<and>
   requiredByTag [] \<and>
   (requiredByTag tag \<longleftrightarrow> \<not> Contains tag ''omitempty'')"
proof (intro conjI impI)
  assume "fst (resolveField cache (fname, ftype) tag annotation names) = Some f"
  then show "rfRequired (rfCore f) = requiredByTag tag" by (rule resolveField_required)
next
  assume "fst (resolveFieldWithParamType cache (fname, ftype) tag annotation paramType) = Some f'"
  then show "rfRequired (rfCore f') = requiredByTag tag"
    by (rule resolveFieldWithParamType_required)
next
  assume a: "fst (resolveAnonymousStruct cache t names) = Some fs"
  then obtain flds where "unwrapPointer t = Struct flds" "fs = fst (resolveAnonFields cache flds names)"
    using resolveAnonymousStruct_Some by blast
  then show "\<exists>flds. unwrapPointer t = Struct flds \<and>
         map (\<lambda>f. (rfGoName (rfCore f), rfRequired (rfCore f))) fs =
         map (\<lambda>(fname, ftype, tag). (fname, requiredByTag tag)) (filter anonFieldKept flds)"
    using resolveAnonFields_required by blast
next
  assume "fst (resolveInlineStructFields parseFloat parseInt cache (Some astFields) comments tagType
           inlineNames) = Some out"
  then have "out = fst (inlineFieldsLoop parseFloat parseInt cache astFields comments tagType inlineNames)"
    by (auto simp: resolveInlineStructFields_def split: prod.splits)
  then show "map (\<lambda>f. (rfGoName (rfCore f), rfRequired (rfCore f))) out =
      map (\<lambda>af. (hd (afNames af), requiredByTag (astFieldTag af)))
          (filter (inlineFieldKept tagType) astFields)"
    using inlineFieldsLoop_required by simp
next
  show "requiredByTag []" by (simp add: requiredByTag_def Contains_def)
next
  show "requiredByTag tag \<longleftrightarrow> \<not> Contains tag ''omitempty''" by (simp add: requiredByTag_def)
qed

lemma Contains_examples:
  "Contains (keyValueTag ''json'' ''age,omitempty'') ''omitempty''"
  "\<not> Contains (keyValueTag ''query'' ''limit'') ''omitempty''"
  "Contains (keyValueTag ''json'' ''a,omitempty'') ''omitempty''"
  "\<not> Contains [] ''omitempty''"
  by (simp_all add: Contains_def keyValueTag_def HasPrefix_def)

lemma resolveAnonymousStruct_Struct:
  "\<exists>fs. fst (resolveAnonymousStruct c (Struct flds) n) = Some fs"
  by (subst resolveAnonymousStruct.simps) (simp split: prod.splits)

lemma resolveInlineStructFields_Some:
  "\<exists>out. fst (resolveInlineStructFields pf pi c (Some flds) cm tt n) = Some out"
  by (simp add: resolveInlineStructFields_def split: prod.splits)

lemma resolveFieldWithParamType_Some:
  "Exported fname \<Longrightarrow> paramType = ''query'' \<Longrightarrow>
   \<exists>f. fst (resolveFieldWithParamType c (fname, ftype) tag a paramType) = Some f"
  by (cases "resolveType c ftype") (simp add: resolveFieldWithParamType_def Let_def)

theorem required_iff_no_omitempty_witness:
  "map_option (\<lambda>f. rfRequired (rfCore f))
     (fst (resolveField Map.empty (''Age'', Pointer (Basic IntKind))
        (keyValueTag ''json'' ''age,omitempty'') (Some exampleAnnotation) (\<lambda>n. False)))
     = Some False \<and>
   map_option (\<lambda>f. rfRequired (rfCore f))
     (fst (resolveFieldWithParamType Map.empty (''Limit'', Basic IntKind)
        (keyValueTag ''query'' ''limit'') None ''query''))
     = Some True \<and>
   map_option (map (\<lambda>f. (rfGoName (rfCore f), rfRequired (rfCore f))))
     (fst (resolveAnonymousStruct Map.empty
        (Struct [(''A'', Basic IntKind, keyValueTag ''json'' ''a,omitempty''),
                 (''B'', Basic IntKind, []),
                 (''c'', Basic IntKind, [])])
        (\<lambda>n. False)))
     = Some [(''A'', False), (''B'', True)] \<and>
   map_option (map (\<lambda>f. (rfGoName (rfCore f), rfRequired (rfCore f))))
     (fst (resolveInlineStructFields (\<lambda>s. None) (\<lambda>s. None) Map.empty
        (Some [\<lparr>afNames = [''Limit''],
                 afTag = Some (CHR 0x60 # keyValueTag ''json'' ''a,omitempty'' @ [CHR 0x60]),
                 afType = Some (Basic IntKind)\<rparr>])
        (\<lambda>n. if n = ''Limit'' then Some [''@field { @description Max @deprecated }''] else None)
        ''query'' None))
     = Some [(''Limit'', False)]"
proof -
  let ?T1 = "keyValueTag ''json'' ''age,omitempty''"
  let ?T2 = "keyValueTag ''query'' ''limit''"
  let ?T3 = "keyValueTag ''json'' ''a,omitempty''"
  let ?ty = "Struct [(''A'', Basic IntKind, ?T3), (''B'', Basic IntKind, []),
                 (''c'', Basic IntKind, [])]"
  let ?af = "\<lparr>afNames = [''Limit''], afTag = Some (CHR 0x60 # ?T3 @ [CHR 0x60]),
                 afType = Some (Basic IntKind)\<rparr>"
  let ?cm = "\<lambda>n. if n = ''Limit'' then Some [''@field { @description Max @deprecated }''] else None"
  have ex: "Exported ''Age''" "Exported ''A''" "Exported ''B''" "\<not> Exported ''c''"
    "Exported ''Limit''"
    by (simp_all add: Exported_def)
  have g: "StructTagGet ?T1 ''json'' = ''age,omitempty''"
    "StructTagGet ?T3 ''json'' = ''a,omitempty''"
    "StructTagGet [] ''json'' = []" "StructTagGet [] ''xml'' = []"
    by (simp_all add: StructTagGet_def keyValueTag_def tagKeyChar_def Unquote_def Let_def)
  have p: "tagNamePart ''age,omitempty'' = ''age''" "tagNamePart ''a,omitempty'' = ''a''"
    "tagNamePart [] = []"
    by (simp_all add: tagNamePart_def)
  have nm: "resolveFieldNameFromTag ?T1 ''Age'' = ''age''"
    "resolveFieldNameFromTag ?T3 ''A'' = ''a''"
    "resolveFieldNameFromTag [] ''B'' = ''B''"
    by (simp_all add: resolveName_chain g p Let_def)
  have nm1: "resolveFieldNameFromTag ?T1 ''Age'' \<noteq> []" by (simp add: nm)
  have rq: "\<not> requiredByTag ?T1" "requiredByTag ?T2" "\<not> requiredByTag ?T3" "requiredByTag []"
    using Contains_examples by (simp_all add: requiredByTag_def)
  obtain f where f: "fst (resolveField Map.empty (''Age'', Pointer (Basic IntKind)) ?T1
        (Some exampleAnnotation) (\<lambda>n. False)) = Some f"
    using resolveField_Some[OF ex(1) nm1] by blast
  have "rfRequired (rfCore f) = requiredByTag ?T1"
    using required_iff_no_omitempty
      [where cache=Map.empty and fname="''Age''" and ftype="Pointer (Basic IntKind)"
         and tag="?T1" and annotation="Some exampleAnnotation" and names="\<lambda>n. False" and f=f]
      f by blast
  then have A: "map_option (\<lambda>f. rfRequired (rfCore f))
     (fst (resolveField Map.empty (''Age'', Pointer (Basic IntKind)) ?T1
        (Some exampleAnnotation) (\<lambda>n. False))) = Some False"
    unfolding f using rq(1) by simp
  obtain f' where f': "fst (resolveFieldWithParamType Map.empty (''Limit'', Basic IntKind) ?T2
        None ''query'') = Some f'"
    using resolveFieldWithParamType_Some[where fname="''Limit''" and paramType="''query''"
        and c=Map.empty and ftype="Basic IntKind" and tag="?T2" and a=None] ex(5)
    by blast
  have "rfRequired (rfCore f') = requiredByTag ?T2"
    using required_iff_no_omitempty
      [where cache=Map.empty and fname="''Limit''" and ftype="Basic IntKind" and tag="?T2"
         and annotation=None and paramType="''query''" and f'=f'] f'
    by blast
  then have B: "map_option (\<lambda>f. rfRequired (rfCore f))
     (fst (resolveFieldWithParamType Map.empty (''Limit'', Basic IntKind) ?T2 None ''query''))
     = Some True"
    unfolding f' using rq(2) by simp
  obtain fs where fs: "fst (resolveAnonymousStruct Map.empty ?ty (\<lambda>n. False)) = Some fs"
    using resolveAnonymousStruct_Struct by blast
  have kept: "filter anonFieldKept [(''A'', Basic IntKind, ?T3), (''B'', Basic IntKind, []),
                 (''c'', Basic IntKind, [])]
              = [(''A'', Basic IntKind, ?T3), (''B'', Basic IntKind, [])]"
    using ex by (simp add: anonFieldKept_def nm)
  have "\<exists>flds. unwrapPointer ?ty = Struct flds \<and>
         map (\<lambda>f. (rfGoName (rfCore f), rfRequired (rfCore f))) fs =
         map (\<lambda>(fname, ftype, tag). (fname, requiredByTag tag)) (filter anonFieldKept flds)"
    using required_iff_no_omitempty
      [where cache=Map.empty and names="\<lambda>n. False" and t="?ty" and fs=fs] fs
    by blast
  then have "map (\<lambda>f. (rfGoName (rfCore f), rfRequired (rfCore f))) fs
           = [(''A'', False), (''B'', True)]"
    using kept rq by simp
  then have C: "map_option (map (\<lambda>f. (rfGoName (rfCore f), rfRequired (rfCore f))))
     (fst (resolveAnonymousStruct Map.empty ?ty (\<lambda>n. False)))
     = Some [(''A'', False), (''B'', True)]"
    unfolding fs by simp
  obtain out where out: "fst (resolveInlineStructFields (\<lambda>s. None) (\<lambda>s. None) Map.empty
        (Some [?af]) ?cm ''query'' None) = Some out"
    using resolveInlineStructFields_Some by blast
  have tg: "astFieldTag ?af = ?T3"
    by (simp add: astFieldTag_def keyValueTag_def)
  have kp: "inlineFieldKept ''query'' ?af" by (simp add: inlineFieldKept_def)
  have "map (\<lambda>f. (rfGoName (rfCore f), rfRequired (rfCore f))) out =
      map (\<lambda>af. (hd (afNames af), requiredByTag (astFieldTag af)))
          (filter (inlineFieldKept ''query'') [?af])"
    using required_iff_no_omitempty
      [where cache=Map.empty and parseFloat="\<lambda>s. None" and parseInt="\<lambda>s. None"
         and astFields="[?af]" and comments="?cm" and tagType="''query''" and inlineNames=None
         and out=out]
      out by blast
  then have "map (\<lambda>f. (rfGoName (rfCore f), rfRequired (rfCore f))) out = [(''Limit'', False)]"
    using kp tg rq(3) by simp
  then have D: "map_option (map (\<lambda>f. (rfGoName (rfCore f), rfRequired (rfCore f))))
     (fst (resolveInlineStructFields (\<lambda>s. None) (\<lambda>s. None) Map.empty
        (Some [?af]) ?cm ''query'' None)) = Some [(''Limit'', False)]"
    unfolding out by simp
  show ?thesis using A B C D by (intro conjI)
qed

end
